theory Spec2Isabelle
  imports Complex_Main
begin

section \<open>The optimized Slack huddle detector\<close>

text \<open>
  A shallow embedding of \<^verbatim>\<open>slack-huddle-detector-optimized.py\<close>, the class
  \<^verbatim>\<open>OptimizedSlackHuddleDetector\<close>. Python integers are \<open>int\<close>. A Python float is
  a double: it is modelled by the rational it stands for, and every operation on floats
  rounds its exact result to the nearest double. A dictionary is a map, and a subscript
  of a missing key is the error \<open>KeyError\<close>. Text read from a command is a \<open>string\<close>
  of ASCII characters, as \<^verbatim>\<open>grep -c\<close> prints it; on such text \<^verbatim>\<open>str.isdigit\<close> is
  the test for a nonempty string of decimal digits, on which \<^verbatim>\<open>int\<close> cannot fail.
\<close>

subsection \<open>Errors and dictionaries\<close>

datatype py_error = KeyError string | OSError | ZeroDivisionError

definition then_do :: "py_error + 'a \<Rightarrow> ('a \<Rightarrow> py_error + 'b) \<Rightarrow> py_error + 'b" where
  "then_do r f = (case r of Inl e \<Rightarrow> Inl e | Inr v \<Rightarrow> f v)"

type_synonym audio_state = "string \<rightharpoonup> int"

definition getitem :: "audio_state \<Rightarrow> string \<Rightarrow> py_error + int" where
  "getitem state k = (case state k of None \<Rightarrow> Inl (KeyError k) | Some v \<Rightarrow> Inr v)"

subsection \<open>Formatting an integer, as an f-string does\<close>

definition digit_char :: "nat \<Rightarrow> char" where
  "digit_char n = ''0123456789'' ! n"

fun str_nat :: "nat \<Rightarrow> string" where
  "str_nat n = (if n < 10 then [digit_char n] else str_nat (n div 10) @ [digit_char (n mod 10)])"

definition str_int :: "int \<Rightarrow> string" where
  "str_int i = (if i < 0 then CHR ''-'' # str_nat (nat (- i)) else str_nat (nat i))"

subsection \<open>Python numbers: integers and doubles\<close>

text \<open>
  A number of the program is an integer or a double. The value of a double is a rational
  with a mantissa of 53 bits; \<open>fl\<close> rounds a rational to the nearest such value, a tie
  going to the even mantissa, as IEEE 754 and Python do. The range of the exponent is not
  modelled (no overflow, no subnormal numbers): the numbers of this program are far from
  both ends.
\<close>

datatype py_num = PyInt int | PyFloat rat

fun py_value :: "py_num \<Rightarrow> rat" where
  "py_value (PyInt i) = of_int i"
| "py_value (PyFloat f) = f"

fun bit_length :: "nat \<Rightarrow> nat" where
  "bit_length n = (if n = 0 then 0 else Suc (bit_length (n div 2)))"

definition pow2 :: "int \<Rightarrow> rat" where
  "pow2 k = (if 0 \<le> k then 2 ^ nat k else 1 / 2 ^ nat (- k))"

definition round_half_even :: "rat \<Rightarrow> int" where
  "round_half_even r =
     (let f = \<lfloor>r\<rfloor>; d = r - of_int f
      in if d < 1 / 2 then f else if 1 / 2 < d then f + 1 else if even f then f else f + 1)"

text \<open>The exponent of the leading bit of a positive rational: \<open>2 ^ k \<le> a < 2 ^ (k + 1)\<close>.\<close>

definition ilog2 :: "rat \<Rightarrow> int" where
  "ilog2 a = (if 1 \<le> a then int (bit_length (nat \<lfloor>a\<rfloor>)) - 1
              else - int (bit_length (nat (\<lceil>1 / a\<rceil> - 1))))"

definition fl :: "rat \<Rightarrow> rat" where
  "fl x = (if x = 0 then 0
           else let a = \<bar>x\<bar>; e = ilog2 a - 52; m = round_half_even (a / pow2 e)
                in sgn x * of_int m * pow2 e)"

text \<open>
  The operations the program uses: the conversion of an integer, \<^verbatim>\<open>+\<close>, \<^verbatim>\<open>-\<close> and
  \<^verbatim>\<open>*\<close> on doubles, the true division \<^verbatim>\<open>/\<close> of two integers (correctly rounded in
  Python), and the literal \<^verbatim>\<open>0.7\<close>.
\<close>

definition float_of_int :: "int \<Rightarrow> rat" where
  "float_of_int i = fl (of_int i)"

definition float_add :: "rat \<Rightarrow> rat \<Rightarrow> rat" where
  "float_add a b = fl (a + b)"

definition float_sub :: "rat \<Rightarrow> rat \<Rightarrow> rat" where
  "float_sub a b = fl (a - b)"

definition float_mul :: "rat \<Rightarrow> rat \<Rightarrow> rat" where
  "float_mul a b = fl (a * b)"

definition int_true_div :: "int \<Rightarrow> int \<Rightarrow> rat" where
  "int_true_div a b = fl (of_int a / of_int b)"

definition float_07 :: rat where
  "float_07 = fl (7 / 10)"

text \<open>
  \<^verbatim>\<open>x + k\<close> for an integer literal \<open>k\<close>: exact on an integer, the addition of doubles on
  a double. \<^verbatim>\<open>max(k, x)\<close> is its first argument unless the second is greater. Python
  compares an integer with a double by their exact values.
\<close>

definition py_add_int :: "py_num \<Rightarrow> int \<Rightarrow> py_num" where
  "py_add_int x k = (case x of PyInt i \<Rightarrow> PyInt (i + k)
                     | PyFloat f \<Rightarrow> PyFloat (float_add f (float_of_int k)))"

definition py_max :: "int \<Rightarrow> py_num \<Rightarrow> py_num" where
  "py_max k x = (if of_int k < py_value x then x else PyInt k)"

subsection \<open>The composite scorer: \<^verbatim>\<open>calculate_score\<close>\<close>

text \<open>
  The accumulator is the pair of the locals \<^verbatim>\<open>score\<close> and \<^verbatim>\<open>reasons\<close>. Each rule
  reads one key of the dictionary, in the order of the source.
\<close>

definition calculate_score :: "audio_state \<Rightarrow> py_error + (int \<times> string list)" where
  "calculate_score state =
     then_do (getitem state ''power_assertions'') (\<lambda>pa.
     let a1 = (if pa > 0 then (0 + 25, [] @ [''Audio power: '' @ str_int pa]) else (0, [])) in
     then_do (getitem state ''slack_assertions'') (\<lambda>sa.
     let a2 = (if sa > 0
               then (fst a1 + 20 * min sa 3, snd a1 @ [''Slack assertions: '' @ str_int sa])
               else a1) in
     then_do (getitem state ''audio_units'') (\<lambda>au.
     let a3 = (if au > 0
               then (fst a2 + 15 * min au 2, snd a2 @ [''Audio units: '' @ str_int au])
               else a2) in
     then_do (getitem state ''hal_plugins'') (\<lambda>hp.
     let a4 = (if hp > 0 then (fst a3 + 10, snd a3 @ [''HAL plugins: '' @ str_int hp]) else a3) in
     then_do (getitem state ''audio_fds'') (\<lambda>fd.
     let a5 = (if fd > 3 then (fst a4 + 5, snd a4 @ [''Audio FDs: '' @ str_int fd]) else a4) in
     then_do (getitem state ''ioregistry_clients'') (\<lambda>io.
     let a6 = (if io > 0 then (fst a5 + 10, snd a5 @ [''IO clients: '' @ str_int io]) else a5) in
     then_do (getitem state ''coreaudio_connections'') (\<lambda>ca.
     let a7 = (if ca > 0 then (fst a6 + 10, snd a6 @ [''CoreAudio: '' @ str_int ca]) else a6) in
     Inr a7)))))))"

subsection \<open>The indicator source: \<^verbatim>\<open>run_command_safe\<close> and \<^verbatim>\<open>get_audio_state\<close>\<close>

text \<open>
  The shell is the environment: it maps a command line to \<open>Some\<close> of the text the command
  wrote to its standard output, or to \<open>None\<close> when \<^verbatim>\<open>subprocess.run\<close> raises (the
  timeout, a text that does not decode). The timeout argument only decides which of the
  two happens.
\<close>

type_synonym shell = "string \<Rightarrow> string option"

definition isspace :: "char \<Rightarrow> bool" where
  "isspace c = ((of_char c :: nat) \<in> {9, 10, 11, 12, 13, 28, 29, 30, 31, 32})"

definition strip :: "string \<Rightarrow> string" where
  "strip s = rev (dropWhile isspace (rev (dropWhile isspace s)))"

definition run_command_safe :: "shell \<Rightarrow> string \<Rightarrow> string" where
  "run_command_safe sh cmd = (case sh cmd of Some out \<Rightarrow> strip out | None \<Rightarrow> [])"

definition isdigit_char :: "char \<Rightarrow> bool" where
  "isdigit_char c = (48 \<le> (of_char c :: nat) \<and> (of_char c :: nat) \<le> 57)"

definition isdigit :: "string \<Rightarrow> bool" where
  "isdigit s = (s \<noteq> [] \<and> list_all isdigit_char s)"

text \<open>\<^verbatim>\<open>int(output)\<close> on a string of decimal digits, the only strings the source converts.\<close>

definition int_of_digits :: "string \<Rightarrow> int" where
  "int_of_digits s = foldl (\<lambda>acc c. 10 * acc + (int (of_char c) - 48)) 0 s"

definition probe :: "shell \<Rightarrow> string \<Rightarrow> int" where
  "probe sh cmd = (let output = run_command_safe sh cmd in
                   if isdigit output then int_of_digits output else 0)"

definition cmd_audio_fds :: string where
  "cmd_audio_fds = ''sudo lsof -n -P -c Slack 2>/dev/null | grep -c -i audio''"
definition cmd_audio_units :: string where
  "cmd_audio_units = ''sudo lsof -n -P -c Slack 2>/dev/null | grep -c AudioToolbox''"
definition cmd_hal_plugins :: string where
  "cmd_hal_plugins = ''sudo lsof -n -P -c Slack 2>/dev/null | grep -c HAL''"
definition cmd_power_assertions :: string where
  "cmd_power_assertions = ''pmset -g assertions 2>/dev/null | grep -c -i audio''"
definition cmd_slack_assertions :: string where
  "cmd_slack_assertions = ''pmset -g assertions 2>/dev/null | grep -c Slack''"
definition cmd_ioregistry_clients :: string where
  "cmd_ioregistry_clients = ''ioreg -r -c IOAudioEngine 2>/dev/null | grep -c IOAudioEngine''"
definition cmd_coreaudio_connections :: string where
  "cmd_coreaudio_connections = ''sudo lsof -n -P -c Slack 2>/dev/null | grep -c coreaudio''"

definition initial_audio_state :: audio_state where
  "initial_audio_state =
     [''audio_fds'' \<mapsto> 0, ''audio_units'' \<mapsto> 0, ''hal_plugins'' \<mapsto> 0,
      ''power_assertions'' \<mapsto> 0, ''slack_assertions'' \<mapsto> 0,
      ''ioregistry_clients'' \<mapsto> 0, ''coreaudio_connections'' \<mapsto> 0]"

definition get_audio_state :: "shell \<Rightarrow> audio_state" where
  "get_audio_state sh =
     (let state = initial_audio_state;
          state = state(''audio_fds'' \<mapsto> probe sh cmd_audio_fds);
          state = state(''audio_units'' \<mapsto> probe sh cmd_audio_units);
          state = state(''hal_plugins'' \<mapsto> probe sh cmd_hal_plugins);
          state = state(''power_assertions'' \<mapsto> probe sh cmd_power_assertions);
          state = state(''slack_assertions'' \<mapsto> probe sh cmd_slack_assertions);
          state = state(''ioregistry_clients'' \<mapsto> probe sh cmd_ioregistry_clients);
          state = state(''coreaudio_connections'' \<mapsto> probe sh cmd_coreaudio_connections)
      in state)"

definition indicator_keys :: "string list" where
  "indicator_keys = [''audio_fds'', ''audio_units'', ''hal_plugins'', ''power_assertions'',
                     ''slack_assertions'', ''ioregistry_clients'', ''coreaudio_connections'']"

subsection \<open>The detector object and the history\<close>

record detector =
  baseline_score :: py_num
  in_huddle :: bool
  score_history :: "int list"
  huddle_peak_score :: int

text \<open>The locals of \<^verbatim>\<open>run\<close> that live across iterations extend the object.\<close>

record run_state = detector +
  consecutive_starts :: int
  consecutive_ends :: int

definition maxlen :: nat where
  "maxlen = 10"

text \<open>\<^verbatim>\<open>deque.append\<close> with a maximum length: append, then drop the oldest past capacity.\<close>

definition deque_append :: "int list \<Rightarrow> int \<Rightarrow> int list" where
  "deque_append h x = (let h' = h @ [x] in if length h' > maxlen then tl h' else h')"

text \<open>Python slices: an index below zero counts from the end, and both ends are clamped.\<close>

definition slice_index :: "nat \<Rightarrow> int \<Rightarrow> nat" where
  "slice_index n i = (if i < 0 then nat (max 0 (int n + i)) else min n (nat i))"

definition py_slice :: "'a list \<Rightarrow> int \<Rightarrow> int \<Rightarrow> 'a list" where
  "py_slice xs i j = (let a = slice_index (length xs) i; b = slice_index (length xs) j
                      in take (b - a) (drop a xs))"

definition py_slice_from :: "'a list \<Rightarrow> int \<Rightarrow> 'a list" where
  "py_slice_from xs i = drop (slice_index (length xs) i) xs"

subsection \<open>\<^verbatim>\<open>detect_huddle_change\<close>\<close>

definition trend_of :: "int list \<Rightarrow> rat" where
  "trend_of h =
     (if length h \<ge> 3 then
        let recent_avg = int_true_div (sum_list (py_slice_from h (- 3))) 3;
            older_avg = (if length h \<ge> 6 then int_true_div (sum_list (py_slice h (- 6) (- 3))) 3
                         else recent_avg)
        in float_sub recent_avg older_avg
      else 0)"

definition detect_huddle_change ::
  "'a detector_scheme \<Rightarrow> int \<Rightarrow> 'a detector_scheme \<times> bool \<times> bool \<times> rat" where
  "detect_huddle_change self current_score =
     (let self = self\<lparr>score_history := deque_append (score_history self) current_score\<rparr>;
          trend = trend_of (score_history self);
          start_threshold = py_max 50 (py_add_int (baseline_score self) 25);
          should_end =
            (if in_huddle self then
               let end_by_ratio = (of_int current_score
                                     < float_mul (float_of_int (huddle_peak_score self)) float_07);
                   end_by_baseline = (of_int current_score
                                        \<le> py_value (py_add_int (baseline_score self) 10));
                   end_by_trend = (trend < - 10 \<and> current_score < 50)
               in end_by_ratio \<or> end_by_baseline \<or> end_by_trend
             else False);
          should_start = (\<not> in_huddle self \<and> of_int current_score \<ge> py_value start_threshold
                          \<and> trend \<ge> 0)
      in (self, should_start, should_end, trend))"

subsection \<open>What the program prints and publishes\<close>

datatype trend_arrow = Rising | Falling | Steady

definition trend_str :: "rat \<Rightarrow> trend_arrow" where
  "trend_str trend = (if trend > 5 then Rising else if trend < - 5 then Falling else Steady)"

text \<open>The JSON object of the status file, one field per key.\<close>

record status_data =
  sd_inHuddle :: bool
  sd_score :: int
  sd_baseline :: py_num
  sd_peakScore :: int
  sd_trend :: trend_arrow
  sd_timestamp :: string
  sd_metrics :: "(string \<times> int) list"

text \<open>
  A line on the terminal is kept as the values it is formatted from; the banners, which
  show nothing of the state, and the pauses between samples are left out. What the status
  file holds: nothing yet, a snapshot, or the remains of a write that failed after the
  file was opened for writing.
\<close>

datatype status_extra = PeakExtra int | BaseExtra py_num

datatype console =
    CalibratingLine nat int
  | BaselineLine py_num
  | HuddleStarted string int py_num "string list"
  | HuddleEnded string int int py_num
  | StatusLine bool int trend_arrow "string list" status_extra string
  | ErrorLine py_error

datatype file_content = NoFile | Snapshot status_data | Truncated

record world =
  stdout :: "console list"
  status_file :: file_content

text \<open>How the file system answers one attempt to write the status file.\<close>

datatype fs_outcome = WriteSucceeds | OpenFails | DumpFails | ChmodFails

subsection \<open>\<^verbatim>\<open>write_status_file\<close>\<close>

text \<open>The body of the \<^verbatim>\<open>try\<close>: an exception is \<open>Inl\<close>, with the world it leaves behind.\<close>

definition write_status_body ::
  "'a detector_scheme \<Rightarrow> world \<Rightarrow> fs_outcome \<Rightarrow> string \<Rightarrow> int \<Rightarrow> audio_state \<Rightarrow> rat
   \<Rightarrow> (py_error \<times> world) + world" where
  "write_status_body self w fs now current_score state trend =
     (let arrow = trend_str trend in
      case then_do (getitem state ''slack_assertions'') (\<lambda>sa.
           then_do (getitem state ''audio_units'') (\<lambda>au.
           then_do (getitem state ''audio_fds'') (\<lambda>fd.
           then_do (getitem state ''power_assertions'') (\<lambda>pa.
           Inr \<lparr> sd_inHuddle = in_huddle self,
                 sd_score = current_score,
                 sd_baseline = baseline_score self,
                 sd_peakScore = (if in_huddle self then huddle_peak_score self else 0),
                 sd_trend = arrow,
                 sd_timestamp = now,
                 sd_metrics = [(''slackAssertions'', sa), (''audioUnits'', au),
                               (''audioFds'', fd), (''powerAssertions'', pa)] \<rparr>))))
      of Inl e \<Rightarrow> Inl (e, w)
       | Inr status_data \<Rightarrow>
          (case fs of
             OpenFails \<Rightarrow> Inl (OSError, w)
           | DumpFails \<Rightarrow> Inl (OSError, w\<lparr>status_file := Truncated\<rparr>)
           | ChmodFails \<Rightarrow> Inl (OSError, w\<lparr>status_file := Snapshot status_data\<rparr>)
           | WriteSucceeds \<Rightarrow> Inr (w\<lparr>status_file := Snapshot status_data\<rparr>)))"

text \<open>
  \<^verbatim>\<open>except Exception as e: pass\<close>: every error of the body ends the call normally,
  and nothing is printed.
\<close>

definition write_status_file ::
  "'a detector_scheme \<Rightarrow> world \<Rightarrow> fs_outcome \<Rightarrow> string \<Rightarrow> int \<Rightarrow> audio_state \<Rightarrow> rat
   \<Rightarrow> py_error + world" where
  "write_status_file self w fs now current_score state trend =
     (case write_status_body self w fs now current_score state trend of
        Inl (e, w') \<Rightarrow> Inr w'
      | Inr w' \<Rightarrow> Inr w')"

subsection \<open>\<^verbatim>\<open>calibrate\<close>\<close>

text \<open>
  The loop \<^verbatim>\<open>for i in range(3)\<close> over the indices still to visit; \<open>src i\<close> is the shell
  as the \<open>i\<close>-th snapshot finds it. No error is caught here.
\<close>

fun calibrate_loop ::
  "(nat \<Rightarrow> shell) \<Rightarrow> nat list \<Rightarrow> int list \<Rightarrow> console list
   \<Rightarrow> py_error + (int list \<times> console list)" where
  "calibrate_loop src [] scores out = Inr (scores, out)"
| "calibrate_loop src (i # is) scores out =
     (let state = get_audio_state (src i) in
      then_do (calculate_score state) (\<lambda>(score, _).
      calibrate_loop src is (scores @ [score]) (out @ [CalibratingLine (i + 1) score])))"

definition calibrate ::
  "'a detector_scheme \<Rightarrow> world \<Rightarrow> (nat \<Rightarrow> shell) \<Rightarrow> py_error + ('a detector_scheme \<times> world)" where
  "calibrate self w src =
     then_do (calibrate_loop src [0 ..< 3] [] (stdout w)) (\<lambda>(scores, out).
     if length scores = 0 then Inl ZeroDivisionError
     else
       let self = self\<lparr>baseline_score :=
                         PyFloat (int_true_div (sum_list scores) (int (length scores)))\<rparr>
       in Inr (self, w\<lparr>stdout := out @ [BaselineLine (baseline_score self)]\<rparr>))"

subsection \<open>One iteration of the loop of \<^verbatim>\<open>run\<close>\<close>

definition init_detector :: detector where
  "init_detector = \<lparr> baseline_score = PyInt 0, in_huddle = False, score_history = [],
                      huddle_peak_score = 0 \<rparr>"

text \<open>The state when the loop is entered: the calibrated object and both counters at 0.\<close>

definition enter_loop :: "detector \<Rightarrow> run_state" where
  "enter_loop self =
     \<lparr> baseline_score = baseline_score self, in_huddle = in_huddle self,
       score_history = score_history self, huddle_peak_score = huddle_peak_score self,
       consecutive_starts = 0, consecutive_ends = 0 \<rparr>"

text \<open>The \<^verbatim>\<open>if\<close>/\<^verbatim>\<open>elif\<close>/\<^verbatim>\<open>else\<close> that handles the transitions, with what it prints.\<close>

definition handle_transitions ::
  "run_state \<Rightarrow> string \<Rightarrow> int \<Rightarrow> string list \<Rightarrow> bool \<Rightarrow> bool \<Rightarrow> run_state \<times> console list" where
  "handle_transitions rs now score reasons should_start should_end =
     (if should_start then
        let rs = rs\<lparr>consecutive_starts := consecutive_starts rs + 1\<rparr>;
            rs = rs\<lparr>consecutive_ends := 0\<rparr>
        in if consecutive_starts rs \<ge> 2 then
             (rs\<lparr>in_huddle := True, huddle_peak_score := score, consecutive_starts := 0\<rparr>,
              [HuddleStarted now score (baseline_score rs) reasons])
           else (rs, [])
      else if should_end then
        let rs = rs\<lparr>consecutive_ends := consecutive_ends rs + 1\<rparr>;
            rs = rs\<lparr>consecutive_starts := 0\<rparr>
        in if consecutive_ends rs \<ge> 2 then
             (rs\<lparr>in_huddle := False, huddle_peak_score := 0, consecutive_ends := 0,
                  baseline_score := PyInt score\<rparr>,
              [HuddleEnded now score (huddle_peak_score rs) (PyInt score)])
           else (rs, [])
      else (rs\<lparr>consecutive_starts := 0, consecutive_ends := 0\<rparr>, []))"

definition update_peak :: "run_state \<Rightarrow> int \<Rightarrow> run_state" where
  "update_peak rs score =
     (if in_huddle rs \<and> score > huddle_peak_score rs then rs\<lparr>huddle_peak_score := score\<rparr>
      else rs)"

text \<open>
  The state machine on one tick, from the score: the history and the trend, the
  transitions, the peak. It returns the new state, the trend and the lines printed.
\<close>

definition state_machine_tick ::
  "run_state \<Rightarrow> string \<Rightarrow> int \<Rightarrow> string list \<Rightarrow> run_state \<times> rat \<times> console list" where
  "state_machine_tick rs now score reasons =
     (case detect_huddle_change rs score of (rs, should_start, should_end, trend) \<Rightarrow>
        (case handle_transitions rs now score reasons should_start should_end of (rs, out) \<Rightarrow>
           (update_peak rs score, trend, out)))"

definition tick :: "run_state \<Rightarrow> int \<Rightarrow> run_state" where
  "tick rs score = fst (state_machine_tick rs [] score [])"

definition status_line ::
  "run_state \<Rightarrow> string \<Rightarrow> int \<Rightarrow> audio_state \<Rightarrow> rat \<Rightarrow> py_error + console" where
  "status_line rs now score state trend =
     then_do (getitem state ''slack_assertions'') (\<lambda>sa.
     let metrics = (if sa > 0 then [''PWR:'' @ str_int sa] else []) in
     then_do (getitem state ''audio_units'') (\<lambda>au.
     let metrics = (if au > 0 then metrics @ [''AU:'' @ str_int au] else metrics) in
     then_do (getitem state ''audio_fds'') (\<lambda>fd.
     let metrics = (if fd > 3 then metrics @ [''FD:'' @ str_int fd] else metrics) in
     Inr (StatusLine (in_huddle rs) score (trend_str trend) metrics
            (if in_huddle rs then PeakExtra (huddle_peak_score rs)
             else BaseExtra (baseline_score rs))
            now))))"

text \<open>What one iteration is given: the shell, the clock and the file system.\<close>

record tick_input =
  ti_shell :: shell
  ti_now :: string
  ti_fs :: fs_outcome

text \<open>
  The body of the \<^verbatim>\<open>while\<close> loop with its \<^verbatim>\<open>except Exception\<close>: an error prints a
  line and keeps what was changed before it.
\<close>

definition loop_iteration :: "run_state \<times> world \<Rightarrow> tick_input \<Rightarrow> run_state \<times> world" where
  "loop_iteration rw inp =
     (case rw of (rs, w) \<Rightarrow>
      (let state = get_audio_state (ti_shell inp) in
       (case calculate_score state of
          Inl e \<Rightarrow> (rs, w\<lparr>stdout := stdout w @ [ErrorLine e]\<rparr>)
        | Inr (score, reasons) \<Rightarrow>
           (case state_machine_tick rs (ti_now inp) score reasons of (rs, trend, out) \<Rightarrow>
            (let w = w\<lparr>stdout := stdout w @ out\<rparr> in
             (case write_status_file rs w (ti_fs inp) (ti_now inp) score state trend of
                Inl e \<Rightarrow> (rs, w\<lparr>stdout := stdout w @ [ErrorLine e]\<rparr>)
              | Inr w \<Rightarrow>
                 (case status_line rs (ti_now inp) score state trend of
                    Inl e \<Rightarrow> (rs, w\<lparr>stdout := stdout w @ [ErrorLine e]\<rparr>)
                  | Inr line \<Rightarrow> (rs, w\<lparr>stdout := stdout w @ [line]\<rparr>))))))))"

text \<open>The loop until it is interrupted, after the iterations in the list.\<close>

definition run_loop :: "run_state \<times> world \<Rightarrow> tick_input list \<Rightarrow> run_state \<times> world" where
  "run_loop rw inps = foldl loop_iteration rw inps"

text \<open>
  \<^verbatim>\<open>run\<close>: the calibration of a new detector, whose errors nothing catches, then the
  loop with both counters at 0.
\<close>

definition run ::
  "world \<Rightarrow> (nat \<Rightarrow> shell) \<Rightarrow> tick_input list \<Rightarrow> py_error + (run_state \<times> world)" where
  "run w src inps =
     then_do (calibrate init_detector w src) (\<lambda>(self, w).
     Inr (run_loop (enter_loop self, w) inps))"

subsection \<open>The scoring rules as the specification words them\<close>

text \<open>
  One entry per weighting rule, in the order of evaluation: the indicator, when the rule
  is triggered, and what it then contributes. An indicator that is absent triggers
  nothing.
\<close>

definition scoring_rules :: "(string \<times> (int \<Rightarrow> bool) \<times> (int \<Rightarrow> int)) list" where
  "scoring_rules =
     [(''power_assertions'', (\<lambda>v. v > 0), (\<lambda>v. 25)),
      (''slack_assertions'', (\<lambda>v. v > 0), (\<lambda>v. 20 * min v 3)),
      (''audio_units'', (\<lambda>v. v > 0), (\<lambda>v. 15 * min v 2)),
      (''hal_plugins'', (\<lambda>v. v > 0), (\<lambda>v. 10)),
      (''audio_fds'', (\<lambda>v. v > 3), (\<lambda>v. 5)),
      (''ioregistry_clients'', (\<lambda>v. v > 0), (\<lambda>v. 10)),
      (''coreaudio_connections'', (\<lambda>v. v > 0), (\<lambda>v. 10))]"

definition triggered_contributions :: "audio_state \<Rightarrow> int list" where
  "triggered_contributions state =
     concat (map (\<lambda>(k, triggered, bonus).
                    case state k of None \<Rightarrow> []
                    | Some v \<Rightarrow> if triggered v then [bonus v] else [])
                 scoring_rules)"

subsection \<open>Notions of the specification and concrete inputs\<close>

definition example_snapshot :: audio_state where
  "example_snapshot =
     [''audio_fds'' \<mapsto> 5, ''audio_units'' \<mapsto> 4, ''hal_plugins'' \<mapsto> 0,
      ''power_assertions'' \<mapsto> 1, ''slack_assertions'' \<mapsto> 2,
      ''ioregistry_clients'' \<mapsto> 0, ''coreaudio_connections'' \<mapsto> 1]"

text \<open>The key of each probe with its command, as \<^verbatim>\<open>get_audio_state\<close> pairs them.\<close>

definition probe_table :: "(string \<times> string) list" where
  "probe_table =
     [(''audio_fds'', cmd_audio_fds), (''audio_units'', cmd_audio_units),
      (''hal_plugins'', cmd_hal_plugins), (''power_assertions'', cmd_power_assertions),
      (''slack_assertions'', cmd_slack_assertions),
      (''ioregistry_clients'', cmd_ioregistry_clients),
      (''coreaudio_connections'', cmd_coreaudio_connections)]"

text \<open>
  A probe is unusable when its command gave no output (it failed or timed out) or an
  output that, stripped, is empty or is not a number.
\<close>

definition unusable :: "shell \<Rightarrow> string \<Rightarrow> bool" where
  "unusable sh cmd = (case sh cmd of None \<Rightarrow> True | Some out \<Rightarrow> \<not> isdigit (strip out))"

definition example_shell :: shell where
  "example_shell cmd =
     (if cmd = cmd_audio_fds then Some ''lsof: failed''
      else if cmd = cmd_slack_assertions then Some [CHR ''2'', CHR 10]
      else if cmd = cmd_audio_units then Some []
      else None)"

definition silent_world :: world where
  "silent_world = \<lparr> stdout = [], status_file = NoFile \<rparr>"

text \<open>
  The trend as the claim words it, in exact arithmetic over the scores pushed so far: the
  average of the last three minus the average of the three before them when there are
  six, else 0. And the trend in the arithmetic of the program: each average is a
  division of integers rounded to a double, and so is their difference.
\<close>

definition average3 :: "int \<Rightarrow> int \<Rightarrow> int \<Rightarrow> rat" where
  "average3 a b c = of_int (a + b + c) / 3"

definition spec_trend :: "int list \<Rightarrow> rat" where
  "spec_trend ys =
     (let n = length ys in
      if 6 \<le> n
      then average3 (ys ! (n - 3)) (ys ! (n - 2)) (ys ! (n - 1))
           - average3 (ys ! (n - 6)) (ys ! (n - 5)) (ys ! (n - 4))
      else 0)"

definition float_trend :: "int list \<Rightarrow> rat" where
  "float_trend ys =
     (let n = length ys in
      if 6 \<le> n
      then float_sub (int_true_div (ys ! (n - 3) + ys ! (n - 2) + ys ! (n - 1)) 3)
                     (int_true_div (ys ! (n - 6) + ys ! (n - 5) + ys ! (n - 4)) 3)
      else 0)"

definition five_pushed :: "int list" where
  "five_pushed = [10, 10, 10, 60, 60]"

definition six_pushed :: "int list" where
  "six_pushed = [135, 40, 25, 50, 50, 0]"

text \<open>
  The start and the end condition in the arithmetic of the program (the sum with the
  baseline and the product with \<^verbatim>\<open>0.7\<close> are doubles when an operand is one), and in
  exact arithmetic.
\<close>

definition start_condition :: "py_num \<Rightarrow> int \<Rightarrow> rat \<Rightarrow> bool" where
  "start_condition baseline score trend
     = (of_int score \<ge> py_value (py_max 50 (py_add_int baseline 25)) \<and> trend \<ge> 0)"

definition end_condition :: "int \<Rightarrow> py_num \<Rightarrow> int \<Rightarrow> rat \<Rightarrow> bool" where
  "end_condition peakScore baseline score trend
     = (of_int score < float_mul (float_of_int peakScore) float_07
        \<or> of_int score \<le> py_value (py_add_int baseline 10)
        \<or> (trend < - 10 \<and> score < 50))"

definition start_condition_exact :: "rat \<Rightarrow> int \<Rightarrow> rat \<Rightarrow> bool" where
  "start_condition_exact baseline score trend
     = (of_int score \<ge> max 50 (baseline + 25) \<and> trend \<ge> 0)"

definition end_condition_exact :: "int \<Rightarrow> rat \<Rightarrow> int \<Rightarrow> rat \<Rightarrow> bool" where
  "end_condition_exact peakScore baseline score trend
     = ((of_int score :: rat) < (7 / 10) * of_int peakScore
        \<or> of_int score \<le> baseline + 10
        \<or> (trend < - 10 \<and> score < 50))"

text \<open>The trend a tick computes, and the two conditions on the state the tick finds.\<close>

definition tick_trend :: "run_state \<Rightarrow> int \<Rightarrow> rat" where
  "tick_trend rs score = trend_of (deque_append (score_history rs) score)"

definition starts_now :: "run_state \<Rightarrow> int \<Rightarrow> bool" where
  "starts_now rs score = start_condition (baseline_score rs) score (tick_trend rs score)"

definition ends_now :: "run_state \<Rightarrow> int \<Rightarrow> bool" where
  "ends_now rs score
     = end_condition (huddle_peak_score rs) (baseline_score rs) score (tick_trend rs score)"

text \<open>
  The loop entered with the baseline 10.0 that three samples of score 10 give, and a
  session under way with peak 100.
\<close>

definition calibrated :: run_state where
  "calibrated = enter_loop (init_detector\<lparr>baseline_score := PyFloat 10\<rparr>)"

definition in_session :: run_state where
  "in_session = \<lparr> baseline_score = PyFloat 10, in_huddle = True, score_history = [100, 100],
                   huddle_peak_score = 100, consecutive_starts = 0, consecutive_ends = 0 \<rparr>"

text \<open>
  A double that is an integer of moderate size, or an integer: on such a baseline the
  sums \<^verbatim>\<open>baseline + 25\<close> and \<^verbatim>\<open>baseline + 10\<close> are exact.
\<close>

definition integral :: "py_num \<Rightarrow> bool" where
  "integral b = (case b of PyInt i \<Rightarrow> True
                 | PyFloat f \<Rightarrow> f = of_int \<lfloor>f\<rfloor> \<and> \<bar>f\<bar> < 2 ^ 52)"

text \<open>The scores the scorer can give: the multiples of 5 from 0 to 150.\<close>

definition scorer_range :: "int list" where
  "scorer_range = map (\<lambda>k. 5 * k) [0 .. 30]"

text \<open>
  The loop entered with the baseline 0.0 of three silent snapshots, after the six scores
  135, 40, 25, 50, 50, 0: a session with peak 50 that one tick has signalled to end. And
  an idle state with the same baseline whose history holds one spike.
\<close>

definition after_six :: run_state where
  "after_six = foldl tick (enter_loop (init_detector\<lparr>baseline_score := PyFloat 0\<rparr>)) six_pushed"

definition spiked :: run_state where
  "spiked = \<lparr> baseline_score = PyFloat 0, in_huddle = False, score_history = [0, 0, 0, 150, 0],
               huddle_peak_score = 0, consecutive_starts = 0, consecutive_ends = 0 \<rparr>"

text \<open>
  The states the loop can be in: the state it is entered with after a calibration, and
  the state after a tick on any score.
\<close>

inductive reachable :: "run_state \<Rightarrow> bool" where
  reachable_init: "reachable (enter_loop (init_detector\<lparr>baseline_score := b\<rparr>))"
| reachable_tick: "reachable rs \<Longrightarrow> reachable (tick rs score)"

text \<open>
  Three snapshots for a calibration, of scores 10 (a HAL plugin), 25 (an audio power
  assertion) and 0.
\<close>

definition shell_hal :: shell where
  "shell_hal cmd = (if cmd = cmd_hal_plugins then Some ''1'' else Some ''0'')"

definition shell_power :: shell where
  "shell_power cmd = (if cmd = cmd_power_assertions then Some ''1'' else Some ''0'')"

definition shell_quiet :: shell where
  "shell_quiet cmd = Some ''0''"

definition example_calibration :: "nat \<Rightarrow> shell" where
  "example_calibration i = (if i = 0 then shell_hal else if i = 1 then shell_power else shell_quiet)"

definition example_input :: tick_input where
  "example_input = \<lparr> ti_shell = example_shell, ti_now = ''12:00:00'', ti_fs = WriteSucceeds \<rparr>"


section \<open>Rounding to a double\<close>

lemma bit_length_bound: "n < 2 ^ m \<Longrightarrow> bit_length n \<le> m"
proof (induction m arbitrary: n)
  case 0
  then show ?case by simp
next
  case (Suc m)
  show ?case
  proof (cases "n = 0")
    case True
    then show ?thesis by simp
  next
    case False
    have "n div 2 < 2 ^ m" using Suc.prems by simp
    then have "bit_length (n div 2) \<le> m" by (rule Suc.IH)
    with False show ?thesis by (subst bit_length.simps) simp
  qed
qed

lemma round_half_even_of_int: "round_half_even (of_int k) = k"
  by (simp add: round_half_even_def)

lemma pow2_nonpos: "e \<le> 0 \<Longrightarrow> pow2 e = 1 / 2 ^ nat (- e)"
  by (cases "e = 0") (simp_all add: pow2_def)

text \<open>An integer below \<open>2 ^ 53\<close> in absolute value is a double: rounding leaves it as it is.\<close>

lemma fl_of_int:
  assumes "\<bar>n\<bar> < 2 ^ 53"
  shows "fl (of_int n) = of_int n"
proof (cases "n = 0")
  case True
  then show ?thesis by (simp add: fl_def)
next
  case False
  define b where "b = bit_length (nat \<bar>n\<bar>)"
  define j where "j = nat (- (int b - 1 - 52))"
  have "nat \<bar>n\<bar> < 2 ^ 53" using assms by (simp add: nat_less_iff)
  then have b53: "b \<le> 53" unfolding b_def by (rule bit_length_bound)
  have a: "\<bar>of_int n :: rat\<bar> = of_int \<bar>n\<bar>" by simp
  have one: "(1::rat) \<le> of_int \<bar>n\<bar>"
    using False by (simp flip: of_int_abs add: of_int_1_le_iff del: of_int_abs)
  have l: "ilog2 (of_int \<bar>n\<bar>) = int b - 1"
    unfolding ilog2_def b_def using one by (simp del: of_int_abs)
  have p: "pow2 (int b - 1 - 52) = 1 / 2 ^ j"
    unfolding j_def using b53 by (intro pow2_nonpos) simp
  have q: "(of_int \<bar>n\<bar> :: rat) / (1 / 2 ^ j) = of_int (\<bar>n\<bar> * 2 ^ j)" by simp
  have s: "sgn (of_int n :: rat) * of_int \<bar>n\<bar> = of_int n"
    by (cases "0 < n") (use False in \<open>simp_all add: sgn_if\<close>)
  have "fl (of_int n) = sgn (of_int n) * of_int (\<bar>n\<bar> * 2 ^ j) * (1 / 2 ^ j)"
    using False unfolding fl_def Let_def a l p q round_half_even_of_int by simp
  also have "\<dots> = sgn (of_int n :: rat) * of_int \<bar>n\<bar>" by simp
  also have "\<dots> = of_int n" by (rule s)
  finally show ?thesis .
qed

lemma float_of_int_exact: "\<bar>n\<bar> < 2 ^ 53 \<Longrightarrow> float_of_int n = of_int n"
  by (simp add: float_of_int_def fl_of_int)

text \<open>The division of two integers is exact when the quotient is an integer.\<close>

lemma int_true_div_exact:
  assumes "b \<noteq> 0" "b dvd a" "\<bar>a div b\<bar> < 2 ^ 53"
  shows "int_true_div a b = of_int a / of_int b"
proof -
  from assms(2) obtain k where k: "a = b * k" by (rule dvdE)
  with assms(1) have d: "a div b = k" by simp
  have "(of_int a :: rat) / of_int b = of_int k" using assms(1) k by simp
  moreover have "fl (of_int k) = of_int k" using assms(3) d by (simp add: fl_of_int)
  ultimately show ?thesis by (simp add: int_true_div_def)
qed

text \<open>
  On a double that is an integer, and on an integer, \<^verbatim>\<open>x + k\<close> is the exact sum.
\<close>

lemma py_add_int_exact:
  "py_value (py_add_int (PyInt i) k) = of_int i + of_int k"
  "\<bar>i\<bar> < 2 ^ 52 \<Longrightarrow> \<bar>k\<bar> < 2 ^ 52
     \<Longrightarrow> py_value (py_add_int (PyFloat (of_int i)) k) = of_int i + of_int k"
proof -
  show "py_value (py_add_int (PyInt i) k) = of_int i + of_int k"
    by (simp add: py_add_int_def)
  assume h: "\<bar>i\<bar> < 2 ^ 52" "\<bar>k\<bar> < 2 ^ 52"
  then have "\<bar>k\<bar> < 2 ^ 53" "\<bar>i + k\<bar> < 2 ^ 53" by simp_all
  then have "fl (of_int k) = of_int k" "fl (of_int (i + k)) = of_int (i + k)"
    by (simp_all only: fl_of_int)
  then show "py_value (py_add_int (PyFloat (of_int i)) k) = of_int i + of_int k"
    by (simp add: py_add_int_def float_add_def float_of_int_def)
qed

lemma py_max_value: "py_value (py_max k x) = max (of_int k) (py_value x)"
  by (simp add: py_max_def max_def)


section \<open>Properties of the scorer\<close>

lemma sum_list_if: "sum_list (if b then [c] else []) = (if b then c else (0::int))"
  by simp

lemma let_rule_first:
  "(let a = (if b then (0 + c, [] @ r) else (0::int, [])) in F a)
     = F ((if b then c else 0), (if b then r else []))"
  by simp

lemma let_rule_next:
  "(let a = (if b then (fst p + c, snd p @ r) else p) in F a)
     = F (fst p + (if b then c else (0::int)), snd p @ (if b then r else []))"
  by (cases p) simp

text \<open>On a snapshot with all seven keys the scorer returns, and this is what it returns.\<close>

lemma calculate_score_closed:
  assumes v:
    "state ''audio_fds'' = Some fd" "state ''audio_units'' = Some au"
    "state ''hal_plugins'' = Some hp" "state ''power_assertions'' = Some pa"
    "state ''slack_assertions'' = Some sa" "state ''ioregistry_clients'' = Some io"
    "state ''coreaudio_connections'' = Some ca"
  shows "calculate_score state = Inr
     ((if 0 < pa then 25 else 0) + (if 0 < sa then 20 * min sa 3 else 0)
      + (if 0 < au then 15 * min au 2 else 0) + (if 0 < hp then 10 else 0)
      + (if 3 < fd then 5 else 0) + (if 0 < io then 10 else 0) + (if 0 < ca then 10 else 0),
      (if 0 < pa then [''Audio power: '' @ str_int pa] else [])
      @ (if 0 < sa then [''Slack assertions: '' @ str_int sa] else [])
      @ (if 0 < au then [''Audio units: '' @ str_int au] else [])
      @ (if 0 < hp then [''HAL plugins: '' @ str_int hp] else [])
      @ (if 3 < fd then [''Audio FDs: '' @ str_int fd] else [])
      @ (if 0 < io then [''IO clients: '' @ str_int io] else [])
      @ (if 0 < ca then [''CoreAudio: '' @ str_int ca] else []))"
  unfolding calculate_score_def getitem_def then_do_def
  by (simp only: v option.case sum.case let_rule_first let_rule_next fst_conv snd_conv
      append_assoc)

lemma triggered_contributions_closed:
  assumes v:
    "state ''audio_fds'' = Some fd" "state ''audio_units'' = Some au"
    "state ''hal_plugins'' = Some hp" "state ''power_assertions'' = Some pa"
    "state ''slack_assertions'' = Some sa" "state ''ioregistry_clients'' = Some io"
    "state ''coreaudio_connections'' = Some ca"
  shows "sum_list (triggered_contributions state) =
      (if 0 < pa then 25 else 0) + (if 0 < sa then 20 * min sa 3 else 0)
    + (if 0 < au then 15 * min au 2 else 0) + (if 0 < hp then 10 else 0)
    + (if 3 < fd then 5 else 0) + (if 0 < io then 10 else 0) + (if 0 < ca then 10 else 0)"
  by (simp add: triggered_contributions_def scoring_rules_def v sum_list_if
      split del: if_split)

lemma triggered_contributions_nonneg:
  "c \<in> set (triggered_contributions state) \<Longrightarrow> 0 \<le> c"
  by (auto simp: triggered_contributions_def scoring_rules_def
      split: option.splits if_splits)

lemma all_keys_values:
  assumes "set indicator_keys \<subseteq> dom state"
  obtains fd au hp pa sa io ca where
    "state ''audio_fds'' = Some fd" "state ''audio_units'' = Some au"
    "state ''hal_plugins'' = Some hp" "state ''power_assertions'' = Some pa"
    "state ''slack_assertions'' = Some sa" "state ''ioregistry_clients'' = Some io"
    "state ''coreaudio_connections'' = Some ca"
proof -
  from assms have "\<forall>k \<in> set indicator_keys. \<exists>v. state k = Some v"
    by auto
  then show ?thesis
    using that by (auto simp: indicator_keys_def)
qed

text \<open>
  C4. For every indicator snapshot that has the seven keys, whatever their values (so
  in particular for non-negative ones), the scorer returns a score and the reasons; the
  score is the sum of the contributions of the triggered rules, each contribution is at
  least 0, and so is the score.
\<close>

theorem calculate_score_sum_of_contributions:
  assumes "set indicator_keys \<subseteq> dom state"
  shows "\<exists>score reasons. calculate_score state = Inr (score, reasons)
           \<and> score = sum_list (triggered_contributions state)
           \<and> (\<forall>c \<in> set (triggered_contributions state). 0 \<le> c)
           \<and> 0 \<le> score"
proof -
  from assms obtain fd au hp pa sa io ca where v:
    "state ''audio_fds'' = Some fd" "state ''audio_units'' = Some au"
    "state ''hal_plugins'' = Some hp" "state ''power_assertions'' = Some pa"
    "state ''slack_assertions'' = Some sa" "state ''ioregistry_clients'' = Some io"
    "state ''coreaudio_connections'' = Some ca"
    by (rule all_keys_values)
  obtain score reasons where r: "calculate_score state = Inr (score, reasons)"
    and s: "score = sum_list (triggered_contributions state)"
    using calculate_score_closed[OF v] triggered_contributions_closed[OF v] by simp
  have nn: "\<forall>c \<in> set (triggered_contributions state). 0 \<le> c"
    by (simp add: triggered_contributions_nonneg)
  then have "0 \<le> sum_list (triggered_contributions state)"
    by (simp add: sum_list_nonneg)
  with r s nn show ?thesis by simp
qed

theorem calculate_score_sum_of_contributions_witness:
  "set indicator_keys \<subseteq> dom example_snapshot
   \<and> (\<exists>reasons. calculate_score example_snapshot = Inr (110, reasons))
   \<and> sum_list (triggered_contributions example_snapshot) = 110"
proof -
  have h: "set indicator_keys \<subseteq> dom example_snapshot"
    by (simp add: indicator_keys_def example_snapshot_def)
  have t: "sum_list (triggered_contributions example_snapshot) = 110"
    by (simp add: triggered_contributions_def scoring_rules_def example_snapshot_def)
  from calculate_score_sum_of_contributions[OF h] t h show ?thesis by auto
qed


section \<open>Properties of the indicator source\<close>

lemma get_audio_state_lookup:
  "get_audio_state sh ''audio_fds'' = Some (probe sh cmd_audio_fds)"
  "get_audio_state sh ''audio_units'' = Some (probe sh cmd_audio_units)"
  "get_audio_state sh ''hal_plugins'' = Some (probe sh cmd_hal_plugins)"
  "get_audio_state sh ''power_assertions'' = Some (probe sh cmd_power_assertions)"
  "get_audio_state sh ''slack_assertions'' = Some (probe sh cmd_slack_assertions)"
  "get_audio_state sh ''ioregistry_clients'' = Some (probe sh cmd_ioregistry_clients)"
  "get_audio_state sh ''coreaudio_connections'' = Some (probe sh cmd_coreaudio_connections)"
  by (simp_all add: get_audio_state_def initial_audio_state_def)

lemma dom_get_audio_state: "dom (get_audio_state sh) = set indicator_keys"
  by (auto simp: get_audio_state_def initial_audio_state_def indicator_keys_def)

lemma probe_unusable: "unusable sh cmd \<Longrightarrow> probe sh cmd = 0"
  by (auto simp: unusable_def probe_def run_command_safe_def isdigit_def split: option.splits)

lemma calculate_score_returns:
  "\<exists>score reasons. calculate_score (get_audio_state sh) = Inr (score, reasons)"
  using calculate_score_closed[OF get_audio_state_lookup] by simp

text \<open>
  C8. A probe whose command output is unusable (none, empty or not a number) gives the
  indicator value 0; the snapshot has exactly the seven indicator keys; and the scorer
  returns a score on it, it never raises.
\<close>

theorem unusable_probe_is_zero:
  "(\<forall>(k, cmd) \<in> set probe_table. unusable sh cmd \<longrightarrow> get_audio_state sh k = Some 0)
   \<and> dom (get_audio_state sh) = set indicator_keys
   \<and> (\<exists>score reasons. calculate_score (get_audio_state sh) = Inr (score, reasons))"
proof (intro conjI)
  show "\<forall>(k, cmd) \<in> set probe_table. unusable sh cmd \<longrightarrow> get_audio_state sh k = Some 0"
    by (simp add: probe_table_def get_audio_state_lookup probe_unusable)
  show "dom (get_audio_state sh) = set indicator_keys"
    by (rule dom_get_audio_state)
  show "\<exists>score reasons. calculate_score (get_audio_state sh) = Inr (score, reasons)"
    by (rule calculate_score_returns)
qed

lemma strip_ex: "strip [CHR ''2'', CHR 10] = ''2''"
  by (simp add: strip_def isspace_def)

theorem unusable_probe_is_zero_witness:
  "unusable example_shell cmd_audio_fds
   \<and> unusable example_shell cmd_audio_units
   \<and> unusable example_shell cmd_hal_plugins
   \<and> get_audio_state example_shell ''audio_fds'' = Some 0
   \<and> get_audio_state example_shell ''audio_units'' = Some 0
   \<and> get_audio_state example_shell ''hal_plugins'' = Some 0
   \<and> get_audio_state example_shell ''slack_assertions'' = Some 2
   \<and> calculate_score (get_audio_state example_shell) = Inr (40, [''Slack assertions: 2''])"
proof -
  have u: "unusable example_shell cmd_audio_fds" "unusable example_shell cmd_audio_units"
    "unusable example_shell cmd_hal_plugins"
    by (simp_all add: unusable_def example_shell_def cmd_audio_fds_def cmd_audio_units_def
        cmd_slack_assertions_def cmd_hal_plugins_def strip_def isspace_def isdigit_def
        isdigit_char_def)
  have m: "(''audio_fds'', cmd_audio_fds) \<in> set probe_table"
    "(''audio_units'', cmd_audio_units) \<in> set probe_table"
    "(''hal_plugins'', cmd_hal_plugins) \<in> set probe_table"
    by (simp_all add: probe_table_def)
  from unusable_probe_is_zero[of example_shell] u m
  have z: "get_audio_state example_shell ''audio_fds'' = Some 0"
    "get_audio_state example_shell ''audio_units'' = Some 0"
    "get_audio_state example_shell ''hal_plugins'' = Some 0"
    by blast+
  have p: "probe example_shell cmd_slack_assertions = 2"
    "probe example_shell cmd_power_assertions = 0"
    "probe example_shell cmd_ioregistry_clients = 0"
    "probe example_shell cmd_coreaudio_connections = 0"
    by (simp_all add: probe_def run_command_safe_def example_shell_def cmd_audio_fds_def
        cmd_audio_units_def cmd_slack_assertions_def cmd_power_assertions_def
        cmd_ioregistry_clients_def cmd_coreaudio_connections_def
        strip_def isspace_def isdigit_def isdigit_char_def int_of_digits_def)
  have s: "get_audio_state example_shell ''slack_assertions'' = Some 2"
    by (simp add: get_audio_state_lookup p)
  have c: "calculate_score (get_audio_state example_shell) = Inr (40, [''Slack assertions: 2''])"
    using calculate_score_closed[OF z(1) z(2) z(3)
        get_audio_state_lookup(4)[of example_shell] s
        get_audio_state_lookup(6)[of example_shell]
        get_audio_state_lookup(7)[of example_shell]]
    by (simp add: p str_int_def digit_char_def)
  from u z s c show ?thesis by simp
qed


section \<open>Calibration\<close>

lemma range3: "[0 ..< 3] = [0, 1, 2]"
  by (simp add: upt_rec)

lemma calculate_score_range:
  assumes "calculate_score (get_audio_state sh) = Inr (s, r)"
  shows "0 \<le> s \<and> s \<le> 150"
  using assms unfolding calculate_score_closed[OF get_audio_state_lookup]
  by (auto split: if_splits)

text \<open>Every score of the scorer is a multiple of 5 from 0 to 150.\<close>

lemma scorer_range_iff: "s \<in> set scorer_range \<longleftrightarrow> 0 \<le> s \<and> s \<le> 150 \<and> 5 dvd s"
proof
  assume "s \<in> set scorer_range"
  then show "0 \<le> s \<and> s \<le> 150 \<and> 5 dvd s"
    by (auto simp: scorer_range_def)
next
  assume h: "0 \<le> s \<and> s \<le> 150 \<and> 5 dvd s"
  then obtain k where k: "s = 5 * k" by (auto elim: dvdE)
  with h have "0 \<le> k" "k \<le> 30" by simp_all
  with k show "s \<in> set scorer_range"
    unfolding scorer_range_def by (simp add: image_iff Bex_def)
qed

lemma calculate_score_in_scorer_range:
  assumes "calculate_score (get_audio_state sh) = Inr (s, r)"
  shows "s \<in> set scorer_range"
proof -
  have "5 dvd s"
    using assms unfolding calculate_score_closed[OF get_audio_state_lookup]
    by (auto intro!: dvd_add)
  with calculate_score_range[OF assms] show ?thesis by (simp add: scorer_range_iff)
qed

lemma calibrate_closed:
  assumes "calculate_score (get_audio_state (src 0)) = Inr (a, ra)"
    and "calculate_score (get_audio_state (src (Suc 0))) = Inr (b, rb)"
    and "calculate_score (get_audio_state (src 2)) = Inr (c, rc)"
  shows "calibrate self w src
      = Inr (self\<lparr>baseline_score := PyFloat (int_true_div (a + b + c) 3)\<rparr>,
             w\<lparr>stdout := stdout w @ [CalibratingLine 1 a, CalibratingLine 2 b, CalibratingLine 3 c,
                               BaselineLine (PyFloat (int_true_div (a + b + c) 3))]\<rparr>)"
proof -
  have l: "calibrate_loop src [0 ..< 3] [] (stdout w)
      = Inr ([a, b, c], stdout w @ [CalibratingLine 1 a, CalibratingLine 2 b, CalibratingLine 3 c])"
    by (simp add: range3 assms then_do_def)
  show ?thesis
    by (simp add: calibrate_def l then_do_def Let_def add.assoc)
qed

lemma example_calibration_scores:
  "calculate_score (get_audio_state (example_calibration 0)) = Inr (10, [''HAL plugins: 1''])"
  "calculate_score (get_audio_state (example_calibration (Suc 0))) = Inr (25, [''Audio power: 1''])"
  "calculate_score (get_audio_state (example_calibration 2)) = Inr (0, [])"
proof -
  have p: "probe shell_hal cmd_hal_plugins = 1" "probe shell_hal cmd_audio_fds = 0"
    "probe shell_hal cmd_audio_units = 0" "probe shell_hal cmd_power_assertions = 0"
    "probe shell_hal cmd_slack_assertions = 0" "probe shell_hal cmd_ioregistry_clients = 0"
    "probe shell_hal cmd_coreaudio_connections = 0"
    by (simp_all add: probe_def run_command_safe_def shell_hal_def cmd_audio_fds_def
        cmd_audio_units_def cmd_hal_plugins_def cmd_slack_assertions_def
        cmd_power_assertions_def cmd_ioregistry_clients_def cmd_coreaudio_connections_def
        strip_def isspace_def isdigit_def isdigit_char_def int_of_digits_def)
  have q: "probe shell_power cmd_power_assertions = 1" "probe shell_power cmd_audio_fds = 0"
    "probe shell_power cmd_audio_units = 0" "probe shell_power cmd_hal_plugins = 0"
    "probe shell_power cmd_slack_assertions = 0" "probe shell_power cmd_ioregistry_clients = 0"
    "probe shell_power cmd_coreaudio_connections = 0"
    by (simp_all add: probe_def run_command_safe_def shell_power_def cmd_audio_fds_def
        cmd_audio_units_def cmd_hal_plugins_def cmd_slack_assertions_def
        cmd_power_assertions_def cmd_ioregistry_clients_def cmd_coreaudio_connections_def
        strip_def isspace_def isdigit_def isdigit_char_def int_of_digits_def)
  have z: "probe shell_quiet cmd = 0" for cmd
    by (simp add: probe_def run_command_safe_def shell_quiet_def
        strip_def isspace_def isdigit_def isdigit_char_def int_of_digits_def)
  show "calculate_score (get_audio_state (example_calibration 0)) = Inr (10, [''HAL plugins: 1''])"
    unfolding calculate_score_closed[OF get_audio_state_lookup]
    by (simp add: example_calibration_def p str_int_def digit_char_def)
  show "calculate_score (get_audio_state (example_calibration (Suc 0)))
      = Inr (25, [''Audio power: 1''])"
    unfolding calculate_score_closed[OF get_audio_state_lookup]
    by (simp add: example_calibration_def q str_int_def digit_char_def)
  show "calculate_score (get_audio_state (example_calibration 2)) = Inr (0, [])"
    unfolding calculate_score_closed[OF get_audio_state_lookup]
    by (simp add: example_calibration_def z)
qed

lemma rounded_mean_35: "int_true_div 35 3 = 6567749456581973 / 562949953421312"
  by code_simp

text \<open>
  C6 as stated fails. Three snapshots of scores 10, 25 and 0 calibrate the baseline to
  the double \<^verbatim>\<open>11.666666666666666\<close>, which is below their arithmetic mean \<open>35 / 3\<close>:
  the division rounds.
\<close>

theorem calibrate_rounds_the_mean:
  "calibrate init_detector silent_world example_calibration
     = Inr (init_detector\<lparr>baseline_score := PyFloat (6567749456581973 / 562949953421312)\<rparr>,
            silent_world\<lparr>stdout := [CalibratingLine 1 10, CalibratingLine 2 25, CalibratingLine 3 0,
                                    BaselineLine (PyFloat (6567749456581973 / 562949953421312))]\<rparr>)
   \<and> average3 10 25 0 = 35 / 3
   \<and> (6567749456581973 / 562949953421312 :: rat) < average3 10 25 0"
proof -
  have "calibrate init_detector silent_world example_calibration
     = Inr (init_detector\<lparr>baseline_score := PyFloat (int_true_div (10 + 25 + 0) 3)\<rparr>,
            silent_world\<lparr>stdout := stdout silent_world @ [CalibratingLine 1 10,
              CalibratingLine 2 25, CalibratingLine 3 0,
              BaselineLine (PyFloat (int_true_div (10 + 25 + 0) 3))]\<rparr>)"
    by (rule calibrate_closed[OF example_calibration_scores])
  then show ?thesis
    by (simp add: rounded_mean_35 silent_world_def average3_def)
qed

text \<open>
  C6, as the code has it. Calibration scores exactly three snapshots (the three lines it
  prints name them) and always returns, with the baseline set to the double nearest to
  the arithmetic mean of the three scores: for scores \<open>a\<close>, \<open>b\<close>, \<open>c\<close> the baseline is
  \<open>(a + b + c) / 3\<close> rounded. It is exactly the mean when 3 divides the sum of the
  scores.
\<close>

theorem calibrate_rounded_mean_of_three:
  "\<exists>a b c ra rb rc self' w'.
      calculate_score (get_audio_state (src 0)) = Inr (a, ra)
    \<and> calculate_score (get_audio_state (src 1)) = Inr (b, rb)
    \<and> calculate_score (get_audio_state (src 2)) = Inr (c, rc)
    \<and> calibrate self w src = Inr (self', w')
    \<and> baseline_score self' = PyFloat (fl (average3 a b c))
    \<and> (3 dvd a + b + c \<longrightarrow> baseline_score self' = PyFloat (average3 a b c))
    \<and> stdout w' = stdout w @ [CalibratingLine 1 a, CalibratingLine 2 b, CalibratingLine 3 c,
                               BaselineLine (PyFloat (fl (average3 a b c)))]"
proof -
  obtain a ra where a: "calculate_score (get_audio_state (src 0)) = Inr (a, ra)"
    using calculate_score_returns by blast
  obtain b rb where b: "calculate_score (get_audio_state (src (Suc 0))) = Inr (b, rb)"
    using calculate_score_returns by blast
  obtain c rc where c: "calculate_score (get_audio_state (src 2)) = Inr (c, rc)"
    using calculate_score_returns by blast
  have r: "0 \<le> a \<and> a \<le> 150" "0 \<le> b \<and> b \<le> 150" "0 \<le> c \<and> c \<le> 150"
    using a b c by (simp_all only: calculate_score_range)
  have m: "int_true_div (a + b + c) 3 = fl (average3 a b c)"
    by (simp add: int_true_div_def average3_def)
  have e: "fl (average3 a b c) = average3 a b c" if d: "3 dvd a + b + c"
  proof -
    have "0 \<le> (a + b + c) div 3" "(a + b + c) div 3 \<le> 150" using r by arith+
    then have "\<bar>(a + b + c) div 3\<bar> < 2 ^ 53" by simp
    with d have "int_true_div (a + b + c) 3 = of_int (a + b + c) / of_int 3"
      by (intro int_true_div_exact) simp_all
    then show ?thesis unfolding m by (simp add: average3_def)
  qed
  from calibrate_closed[OF a b c, of self w] a b c e show ?thesis
    unfolding m by simp
qed

theorem calibrate_rounded_mean_of_three_witness:
  "(3::int) dvd 10 + 25 + 25
   \<and> (\<exists>self' w'.
         calibrate init_detector silent_world (\<lambda>i. if i = 0 then shell_hal else shell_power)
           = Inr (self', w')
       \<and> baseline_score self' = PyFloat 20
       \<and> stdout w' = [CalibratingLine 1 10, CalibratingLine 2 25, CalibratingLine 3 25,
                       BaselineLine (PyFloat 20)])"
proof -
  have s: "calculate_score (get_audio_state shell_hal) = Inr (10, [''HAL plugins: 1''])"
    "calculate_score (get_audio_state shell_power) = Inr (25, [''Audio power: 1''])"
    using example_calibration_scores(1,2) by (simp_all add: example_calibration_def)
  have d: "(3::int) dvd 10 + 25 + 25" by simp
  have "fl (of_int 20) = (of_int 20 :: rat)" by (rule fl_of_int) simp
  then have f: "fl (average3 10 25 25) = 20" by (simp add: average3_def)
  from calibrate_rounded_mean_of_three[of "\<lambda>i. if i = 0 then shell_hal else shell_power"
      init_detector silent_world] d
  show ?thesis
    by (auto simp: s f silent_world_def)
qed


section \<open>Publishing the status\<close>

lemma write_status_body_raises_stdout:
  "write_status_body self w fs now score state trend = Inl (e, w') \<Longrightarrow> stdout w' = stdout w"
  by (auto simp: write_status_body_def Let_def then_do_def getitem_def
      split: sum.splits option.splits fs_outcome.splits)

lemma write_status_body_returns_stdout:
  "write_status_body self w fs now score state trend = Inr w' \<Longrightarrow> stdout w' = stdout w"
  by (auto simp: write_status_body_def Let_def then_do_def getitem_def
      split: sum.splits option.splits fs_outcome.splits)

lemma write_status_file_returns:
  "\<exists>w'. write_status_file self w fs now score state trend = Inr w' \<and> stdout w' = stdout w"
proof (cases "write_status_body self w fs now score state trend")
  case (Inl p)
  obtain e w' where p: "p = (e, w')" by (cases p)
  with Inl have "stdout w' = stdout w"
    by (simp add: write_status_body_raises_stdout)
  with Inl p show ?thesis
    by (simp add: write_status_file_def)
next
  case (Inr w')
  then have "stdout w' = stdout w"
    by (rule write_status_body_returns_stdout)
  with Inr show ?thesis
    by (simp add: write_status_file_def)
qed

text \<open>
  C7, as the code has it. Whatever the file system does and whatever the arguments are,
  \<^verbatim>\<open>write_status_file\<close> returns normally and prints nothing: a failure is swallowed
  in silence, it is not logged. The state of the loop after the iteration and what the
  iteration prints do not depend on how the write went.
\<close>

theorem write_status_file_never_raises:
  "(\<exists>w'. write_status_file self w fs now score state trend = Inr w' \<and> stdout w' = stdout w)
   \<and> fst (loop_iteration (rs, w) (inp\<lparr>ti_fs := fs\<rparr>)) = fst (loop_iteration (rs, w) inp)
   \<and> stdout (snd (loop_iteration (rs, w) (inp\<lparr>ti_fs := fs\<rparr>)))
       = stdout (snd (loop_iteration (rs, w) inp))"
proof -
  have a: "\<exists>w'. write_status_file self w fs now score state trend = Inr w' \<and> stdout w' = stdout w"
    by (rule write_status_file_returns)
  have b: "fst (loop_iteration (rs, w) (inp\<lparr>ti_fs := fs\<rparr>)) = fst (loop_iteration (rs, w) inp)
    \<and> stdout (snd (loop_iteration (rs, w) (inp\<lparr>ti_fs := fs\<rparr>)))
       = stdout (snd (loop_iteration (rs, w) inp))"
  proof (cases "calculate_score (get_audio_state (ti_shell inp))")
    case (Inl e)
    then show ?thesis by (simp add: loop_iteration_def)
  next
    case (Inr p)
    obtain sc reasons where p: "p = (sc, reasons)" by (cases p)
    obtain rs2 tr out where t: "state_machine_tick rs (ti_now inp) sc reasons = (rs2, tr, out)"
      by (cases "state_machine_tick rs (ti_now inp) sc reasons")
    let ?w = "w\<lparr>stdout := stdout w @ out\<rparr>"
    obtain w1 where w1: "write_status_file rs2 ?w fs (ti_now inp) sc
        (get_audio_state (ti_shell inp)) tr = Inr w1" "stdout w1 = stdout ?w"
      using write_status_file_returns by blast
    obtain w2 where w2: "write_status_file rs2 ?w (ti_fs inp) (ti_now inp) sc
        (get_audio_state (ti_shell inp)) tr = Inr w2" "stdout w2 = stdout ?w"
      using write_status_file_returns by blast
    show ?thesis
      by (simp add: loop_iteration_def Inr p t w1 w2 split: sum.splits)
  qed
  from a b show ?thesis by simp
qed

text \<open>
  C7 as stated fails: when opening the status file fails, the call leaves the terminal
  as it was, so the failure is logged nowhere.
\<close>

theorem write_failure_is_not_logged:
  "write_status_file init_detector silent_world OpenFails ''12:00:00'' 110 example_snapshot 0
     = Inr silent_world"
  by (simp add: write_status_file_def write_status_body_def silent_world_def getitem_def
      then_do_def example_snapshot_def)


section \<open>The history and the trend\<close>

lemma three_elems: "length zs = 3 \<Longrightarrow> sum_list zs = zs ! 0 + zs ! 1 + zs ! 2" for zs :: "int list"
  by (auto simp: numeral_3_eq_3 length_Suc_conv)

lemma sum_last_three:
  fixes h :: "int list"
  assumes "3 \<le> length h"
  shows "sum_list (py_slice_from h (- 3))
           = h ! (length h - 1) + h ! (length h - 2) + h ! (length h - 3)"
proof -
  have s: "py_slice_from h (- 3) = drop (length h - 3) h"
    using assms by (simp add: py_slice_from_def slice_index_def nat_diff_distrib' max_def)
  have l: "length (drop (length h - 3) h) = 3" using assms by simp
  have i: "length h - 3 + 1 = length h - 2" "length h - 3 + 2 = length h - 1"
    using assms by simp_all
  show ?thesis
    unfolding s three_elems[OF l] using assms i by (simp add: add.commute)
qed

lemma sum_previous_three:
  fixes h :: "int list"
  assumes "6 \<le> length h"
  shows "sum_list (py_slice h (- 6) (- 3))
           = h ! (length h - 4) + h ! (length h - 5) + h ! (length h - 6)"
proof -
  have a: "slice_index (length h) (- 6) = length h - 6" "slice_index (length h) (- 3) = length h - 3"
    using assms by (simp_all add: slice_index_def nat_diff_distrib' max_def)
  have d: "length h - 3 - (length h - 6) = 3" using assms by simp
  have s: "py_slice h (- 6) (- 3) = take 3 (drop (length h - 6) h)"
    by (simp only: py_slice_def Let_def a d)
  have l: "length (take 3 (drop (length h - 6) h)) = 3" using assms by simp
  have i: "length h - 6 + 1 = length h - 5" "length h - 6 + 2 = length h - 4"
    using assms by simp_all
  show ?thesis
    unfolding s three_elems[OF l] using assms i by (simp add: add.commute)
qed


lemma float_sub_self: "float_sub a a = 0"
  by (simp add: float_sub_def fl_def)

lemma trend_of_indices:
  "trend_of h =
     (if 6 \<le> length h
      then float_sub (int_true_div (h ! (length h - 1) + h ! (length h - 2) + h ! (length h - 3)) 3)
                     (int_true_div (h ! (length h - 4) + h ! (length h - 5) + h ! (length h - 6)) 3)
      else 0)"
proof (cases "6 \<le> length h")
  case True
  then have "3 \<le> length h" by simp
  with True show ?thesis
    by (simp add: trend_of_def Let_def sum_last_three sum_previous_three)
next
  case False
  then show ?thesis by (simp add: trend_of_def Let_def float_sub_self)
qed

lemma deque_append_drop:
  "deque_append (drop (length xs - maxlen) xs) x = drop (length (xs @ [x]) - maxlen) (xs @ [x])"
proof (cases "length xs < maxlen")
  case True
  then show ?thesis by (simp add: deque_append_def Let_def)
next
  case False
  then have n: "maxlen \<le> length xs" by simp
  let ?h = "drop (length xs - maxlen) xs"
  have len: "length ?h = maxlen" using n by simp
  then have ne: "?h \<noteq> []" by (auto simp: maxlen_def)
  have "deque_append ?h x = tl (?h @ [x])"
    using len by (simp add: deque_append_def Let_def del: length_drop)
  also have "\<dots> = tl ?h @ [x]" using ne by simp
  also have "tl ?h = drop (Suc (length xs - maxlen)) xs"
    by (simp add: tl_drop drop_Suc)
  also have "Suc (length xs - maxlen) = length (xs @ [x]) - maxlen"
    using n by simp
  also have "drop (length (xs @ [x]) - maxlen) xs @ [x]
      = drop (length (xs @ [x]) - maxlen) (xs @ [x])"
    using n by (simp add: maxlen_def)
  finally show ?thesis .
qed

lemma history_is_last_ten: "foldl deque_append [] xs = drop (length xs - maxlen) xs"
proof (induction xs rule: rev_induct)
  case Nil
  show ?case by simp
next
  case (snoc x xs)
  show ?case using deque_append_drop[of xs x] by (simp add: snoc.IH)
qed


lemma trend_of_last_ten: "trend_of (drop (length ys - maxlen) ys) = float_trend ys"
proof -
  let ?k = "length ys - maxlen"
  let ?h = "drop ?k ys"
  have len: "length ?h = min (length ys) maxlen" by auto
  have six: "6 \<le> length ?h \<longleftrightarrow> 6 \<le> length ys"
    by (auto simp: maxlen_def)
  show ?thesis
  proof (cases "6 \<le> length ys")
    case False
    with six show ?thesis by (simp add: trend_of_indices float_trend_def Let_def)
  next
    case True
    have idx: "?h ! (length ?h - j) = ys ! (length ys - j)" if "1 \<le> j" "j \<le> 6" for j
    proof -
      have "?k + (length ?h - j) = length ys - j"
        using that True by (auto simp: maxlen_def)
      moreover have "?k \<le> length ys" by simp
      ultimately show ?thesis by (metis nth_drop)
    qed
    have "trend_of ?h =
        float_sub (int_true_div (?h ! (length ?h - 1) + ?h ! (length ?h - 2) + ?h ! (length ?h - 3)) 3)
                  (int_true_div (?h ! (length ?h - 4) + ?h ! (length ?h - 5) + ?h ! (length ?h - 6)) 3)"
      using six True by (simp only: trend_of_indices if_True)
    also have "\<dots> =
        float_sub (int_true_div (ys ! (length ys - 1) + ys ! (length ys - 2) + ys ! (length ys - 3)) 3)
                  (int_true_div (ys ! (length ys - 4) + ys ! (length ys - 5) + ys ! (length ys - 6)) 3)"
      by (simp only: idx[of 1] idx[of 2] idx[of 3] idx[of 4] idx[of 5] idx[of 6])
    also have "\<dots> = float_trend ys"
      using True by (simp add: float_trend_def Let_def add.commute add.left_commute)
    finally show ?thesis .
  qed
qed

lemma detect_huddle_change_trend:
  assumes "score_history self = foldl deque_append [] xs"
  shows "snd (snd (snd (detect_huddle_change self x))) = float_trend (xs @ [x])"
proof -
  have h: "deque_append (score_history self) x = drop (length (xs @ [x]) - maxlen) (xs @ [x])"
    using assms deque_append_drop[of xs x] by (simp add: history_is_last_ten)
  have "snd (snd (snd (detect_huddle_change self x)))
      = trend_of (deque_append (score_history self) x)"
    by (simp add: detect_huddle_change_def Let_def)
  also have "\<dots> = trend_of (drop (length (xs @ [x]) - maxlen) (xs @ [x]))"
    by (simp only: h)
  also have "\<dots> = float_trend (xs @ [x])"
    by (rule trend_of_last_ten)
  finally show ?thesis .
qed

lemma six_pushed_history: "foldl deque_append [] six_pushed = six_pushed"
  by (simp add: six_pushed_def deque_append_def maxlen_def Let_def)

lemma float_trend_six_pushed:
  "float_trend (six_pushed @ [35]) = - (2814749767106561 / 281474976710656)"
  by code_simp

text \<open>
  C5 as stated fails. After the scores 135, 40, 25, 50, 50, 0 the score 35 is pushed:
  the last three scores average \<open>85 / 3\<close> and the three before them \<open>115 / 3\<close>, so the
  trend of the claim is \<open>- 10\<close>; the program divides and subtracts in doubles and
  returns \<^verbatim>\<open>-10.000000000000004\<close>, which is below \<open>- 10\<close>.
\<close>

theorem trend_differs_from_exact_averages:
  "score_history (init_detector\<lparr>score_history := six_pushed\<rparr>) = foldl deque_append [] six_pushed
   \<and> snd (snd (snd (detect_huddle_change (init_detector\<lparr>score_history := six_pushed\<rparr>) 35)))
       = - (2814749767106561 / 281474976710656)
   \<and> spec_trend (six_pushed @ [35]) = - 10
   \<and> snd (snd (snd (detect_huddle_change (init_detector\<lparr>score_history := six_pushed\<rparr>) 35)))
       < spec_trend (six_pushed @ [35])"
proof -
  have a: "score_history (init_detector\<lparr>score_history := six_pushed\<rparr>)
      = foldl deque_append [] six_pushed"
    by (simp add: six_pushed_history)
  have t: "snd (snd (snd (detect_huddle_change (init_detector\<lparr>score_history := six_pushed\<rparr>) 35)))
      = - (2814749767106561 / 281474976710656)"
    unfolding detect_huddle_change_trend[OF a] by (rule float_trend_six_pushed)
  have s: "spec_trend (six_pushed @ [35]) = - 10"
    by (simp add: spec_trend_def six_pushed_def average3_def Let_def)
  show ?thesis unfolding t s using a by simp
qed

text \<open>
  C5, as the code has it. After the scores \<open>xs\<close> have been pushed into the history and
  \<open>x\<close> is pushed by \<^verbatim>\<open>detect_huddle_change\<close>, the trend it returns is, when at least six
  scores exist, the difference in doubles of two averages in doubles: that of the last
  three scores and that of the three before them, each the sum of the three integers
  divided by 3 and rounded, and the difference rounded again. With fewer than six scores
  (also with three to five) it is exactly 0. The history holds the last ten scores pushed
  at most.
\<close>

theorem trend_is_rounded_recent_minus_previous:
  assumes "score_history self = foldl deque_append [] xs"
  shows "snd (snd (snd (detect_huddle_change self x))) = float_trend (xs @ [x])
         \<and> score_history (fst (detect_huddle_change self x)) = foldl deque_append [] (xs @ [x])
         \<and> length (score_history (fst (detect_huddle_change self x))) \<le> 10
         \<and> (length (xs @ [x]) < 6 \<longrightarrow> snd (snd (snd (detect_huddle_change self x))) = 0)"
proof -
  have t: "snd (snd (snd (detect_huddle_change self x))) = float_trend (xs @ [x])"
    using assms by (rule detect_huddle_change_trend)
  have s: "score_history (fst (detect_huddle_change self x)) = foldl deque_append [] (xs @ [x])"
    unfolding detect_huddle_change_def Let_def
    using assms by simp
  have l: "length (score_history (fst (detect_huddle_change self x))) \<le> 10"
    unfolding s history_is_last_ten by (simp add: maxlen_def)
  have z: "length (xs @ [x]) < 6 \<longrightarrow> float_trend (xs @ [x]) = 0"
    by (simp add: float_trend_def Let_def)
  from t s l z show ?thesis by simp
qed

lemma float_trend_five_pushed: "float_trend (five_pushed @ [60]) = 50"
  by code_simp

theorem trend_is_rounded_recent_minus_previous_witness:
  "score_history (init_detector\<lparr>score_history := five_pushed\<rparr>) = foldl deque_append [] five_pushed
   \<and> snd (snd (snd (detect_huddle_change (init_detector\<lparr>score_history := five_pushed\<rparr>) 60))) = 50
   \<and> float_trend (five_pushed @ [60]) = 50
   \<and> snd (snd (snd (detect_huddle_change (init_detector\<lparr>score_history := [10, 60]\<rparr>) 60))) = 0"
proof -
  have a: "score_history (init_detector\<lparr>score_history := five_pushed\<rparr>)
      = foldl deque_append [] five_pushed"
    by (simp add: five_pushed_def deque_append_def maxlen_def Let_def)
  have b: "score_history (init_detector\<lparr>score_history := [10, 60]\<rparr>)
      = foldl deque_append [] [10, 60]"
    by (simp add: deque_append_def maxlen_def Let_def)
  from trend_is_rounded_recent_minus_previous[OF a, of 60]
       trend_is_rounded_recent_minus_previous[OF b, of 60] float_trend_five_pushed a
  show ?thesis by simp
qed

section \<open>The state machine\<close>

lemma detect_huddle_change_eq:
  "detect_huddle_change rs score =
     (rs\<lparr>score_history := deque_append (score_history rs) score\<rparr>,
      \<not> in_huddle rs \<and> starts_now rs score,
      in_huddle rs \<and> ends_now rs score,
      tick_trend rs score)"
  by (simp add: detect_huddle_change_def Let_def start_condition_def end_condition_def
      tick_trend_def starts_now_def ends_now_def)

lemma tick_idle:
  assumes "\<not> in_huddle rs"
  shows "tick rs score =
     (if starts_now rs score then
        (if consecutive_starts rs + 1 \<ge> 2
         then rs\<lparr>score_history := deque_append (score_history rs) score,
                 consecutive_starts := 0, consecutive_ends := 0,
                 in_huddle := True, huddle_peak_score := score\<rparr>
         else rs\<lparr>score_history := deque_append (score_history rs) score,
                 consecutive_starts := consecutive_starts rs + 1, consecutive_ends := 0\<rparr>)
      else rs\<lparr>score_history := deque_append (score_history rs) score,
              consecutive_starts := 0, consecutive_ends := 0\<rparr>)"
  using assms
  by (simp add: tick_def state_machine_tick_def detect_huddle_change_eq
      handle_transitions_def update_peak_def Let_def)

lemma tick_active:
  assumes "in_huddle rs"
  shows "tick rs score =
     (if ends_now rs score then
        (if consecutive_ends rs + 1 \<ge> 2
         then rs\<lparr>score_history := deque_append (score_history rs) score,
                 consecutive_starts := 0, consecutive_ends := 0,
                 in_huddle := False, huddle_peak_score := 0,
                 baseline_score := PyInt score\<rparr>
         else rs\<lparr>score_history := deque_append (score_history rs) score,
                 consecutive_starts := 0, consecutive_ends := consecutive_ends rs + 1,
                 huddle_peak_score := max (huddle_peak_score rs) score\<rparr>)
      else rs\<lparr>score_history := deque_append (score_history rs) score,
              consecutive_starts := 0, consecutive_ends := 0,
              huddle_peak_score := max (huddle_peak_score rs) score\<rparr>)"
  using assms
  by (simp add: tick_def state_machine_tick_def detect_huddle_change_eq
      handle_transitions_def update_peak_def Let_def max_def)

lemma tick_counters:
  assumes "consecutive_starts rs = 0 \<or> consecutive_starts rs = 1"
    and "consecutive_ends rs = 0 \<or> consecutive_ends rs = 1"
  shows "(consecutive_starts (tick rs score) = 0 \<or> consecutive_starts (tick rs score) = 1)
       \<and> (consecutive_ends (tick rs score) = 0 \<or> consecutive_ends (tick rs score) = 1)"
proof (cases "in_huddle rs")
  case True
  with assms show ?thesis by (auto simp: tick_active)
next
  case False
  with assms show ?thesis by (auto simp: tick_idle)
qed

lemma reachable_counters:
  "reachable rs \<Longrightarrow>
     (consecutive_starts rs = 0 \<or> consecutive_starts rs = 1)
   \<and> (consecutive_ends rs = 0 \<or> consecutive_ends rs = 1)"
proof (induction rule: reachable.induct)
  case (reachable_init b)
  show ?case by (simp add: enter_loop_def)
next
  case (reachable_tick rs score)
  then show ?case using tick_counters by blast
qed

lemma reachable_foldl: "reachable rs \<Longrightarrow> reachable (foldl tick rs xs)"
  by (induction xs arbitrary: rs) (simp_all add: reachable_tick)

text \<open>
  On an integer baseline, and on a double that is an integer, the sum with 25 or 10 is
  exact, so the conditions of the program are the conditions in exact arithmetic.
\<close>

lemma integral_add:
  assumes "integral b" and "\<bar>k\<bar> < 2 ^ 52"
  shows "py_value (py_add_int b k) = py_value b + of_int k"
proof (cases b)
  case (PyInt i)
  then show ?thesis by (simp add: py_add_int_exact(1))
next
  case (PyFloat f)
  with assms(1) have f: "f = of_int \<lfloor>f\<rfloor>" and s: "\<bar>f\<bar> < 2 ^ 52"
    by (simp_all add: integral_def)
  have "\<bar>(of_int \<lfloor>f\<rfloor> :: rat)\<bar> < of_int (2 ^ 52)" using f s by simp
  then have "\<bar>\<lfloor>f\<rfloor>\<bar> < 2 ^ 52" by (simp only: of_int_less_iff flip: of_int_abs)
  from py_add_int_exact(2)[OF this assms(2)] f PyFloat show ?thesis by simp
qed

lemma start_condition_integral:
  assumes "integral b"
  shows "start_condition b score trend = start_condition_exact (py_value b) score trend"
  using integral_add[OF assms, of 25]
  by (simp add: start_condition_def start_condition_exact_def py_max_value)

lemma threshold_calibrated: "py_value (py_max 50 (py_add_int (PyFloat 10) 25)) = 50"
  by code_simp

lemma ratio_of_100: "float_mul (float_of_int 100) float_07 = 70"
  by code_simp

text \<open>
  On a peak that the scorer can give, a score is below the product of the program iff it
  is below seven tenths of the peak: the rounded product and the exact one have the same
  integers below them.
\<close>

lemma float_07_value: "float_07 = 3152519739159347 / 4503599627370496"
  by code_simp

lemma ratio_ceiling_scorer_range:
  "list_all (\<lambda>p. \<lceil>fl (of_int p * (3152519739159347 / 4503599627370496))\<rceil>
                    = \<lceil>(7 * of_int p / 10 :: rat)\<rceil>) scorer_range"
  by code_simp

lemma scorer_range_small: "p \<in> set scorer_range \<Longrightarrow> \<bar>p\<bar> < 2 ^ 53"
  by (auto simp: scorer_range_def)

lemma ratio_ceiling:
  assumes "p \<in> set scorer_range"
  shows "\<lceil>float_mul (float_of_int p) float_07\<rceil> = \<lceil>(7 * of_int p / 10 :: rat)\<rceil>"
proof -
  have "float_of_int p = of_int p"
    using assms by (intro float_of_int_exact scorer_range_small)
  then show ?thesis
    using ratio_ceiling_scorer_range assms
    by (simp add: float_mul_def float_07_value list_all_iff)
qed

lemma ratio_rule_exact:
  assumes "p \<in> set scorer_range"
  shows "(of_int score < float_mul (float_of_int p) float_07)
       = ((of_int score :: rat) < (7 / 10) * of_int p)"
proof -
  have "(of_int score < float_mul (float_of_int p) float_07)
      = (score < \<lceil>float_mul (float_of_int p) float_07\<rceil>)"
    by (simp add: less_ceiling_iff)
  also have "\<dots> = (score < \<lceil>(7 * of_int p / 10 :: rat)\<rceil>)"
    by (simp only: ratio_ceiling[OF assms])
  also have "\<dots> = ((of_int score :: rat) < 7 * of_int p / 10)"
    by (simp only: less_ceiling_iff)
  finally show ?thesis by simp
qed

lemma end_condition_integral:
  assumes "p \<in> set scorer_range" and "integral b"
  shows "end_condition p b score trend = end_condition_exact p (py_value b) score trend"
  using integral_add[OF assms(2), of 10]
  by (simp only: end_condition_def end_condition_exact_def ratio_rule_exact[OF assms(1)]) simp

text \<open>
  C1. In a reachable state of phase IDLE, the tick signals a start iff
  \<open>score \<ge> max 50 (baseline + 25)\<close> and \<open>trend \<ge> 0\<close>, the sum being the sum of the
  program (exact when the baseline is an integer). The phase becomes ACTIVE on a
  tick iff the condition holds on it and held on the tick before (the counter is 1):
  never on a first satisfying tick, which makes the counter 1, while a tick that does
  not satisfy the condition makes it 0. From a counter at 0, two ticks lead to ACTIVE iff
  both satisfy the condition. On confirmation the peak is the current score and both
  counters are 0.
\<close>

theorem start_confirmed_on_second_tick:
  assumes "reachable rs" and "\<not> in_huddle rs"
  shows "fst (snd (detect_huddle_change rs score)) = starts_now rs score
       \<and> (consecutive_starts rs = 0 \<or> consecutive_starts rs = 1)
       \<and> (in_huddle (tick rs score) \<longleftrightarrow> starts_now rs score \<and> consecutive_starts rs = 1)
       \<and> (in_huddle (tick rs score) \<longrightarrow>
            huddle_peak_score (tick rs score) = score
            \<and> consecutive_starts (tick rs score) = 0 \<and> consecutive_ends (tick rs score) = 0)
       \<and> consecutive_starts (tick rs score)
            = (if starts_now rs score \<and> consecutive_starts rs = 0 then 1 else 0)
       \<and> (consecutive_starts rs = 0 \<longrightarrow>
            (in_huddle (tick (tick rs score) score2)
               \<longleftrightarrow> starts_now rs score \<and> starts_now (tick rs score) score2))
       \<and> (integral (baseline_score rs) \<longrightarrow>
            starts_now rs score
              = start_condition_exact (py_value (baseline_score rs)) score (tick_trend rs score))"
proof -
  from assms(1) have c: "consecutive_starts rs = 0 \<or> consecutive_starts rs = 1"
    using reachable_counters by blast
  have d: "fst (snd (detect_huddle_change rs score)) = starts_now rs score"
    using assms(2) by (simp add: detect_huddle_change_eq)
  have one: "in_huddle (tick rs score) \<longleftrightarrow> starts_now rs score \<and> consecutive_starts rs = 1"
    using c assms(2) by (auto simp: tick_idle)
  have conf: "in_huddle (tick rs score) \<longrightarrow>
      huddle_peak_score (tick rs score) = score
      \<and> consecutive_starts (tick rs score) = 0 \<and> consecutive_ends (tick rs score) = 0"
    using c assms(2) by (auto simp: tick_idle)
  have cnt: "consecutive_starts (tick rs score)
      = (if starts_now rs score \<and> consecutive_starts rs = 0 then 1 else 0)"
    using c assms(2) by (auto simp: tick_idle)
  have two: "in_huddle (tick (tick rs score) score2)
      \<longleftrightarrow> starts_now rs score \<and> starts_now (tick rs score) score2"
    if z: "consecutive_starts rs = 0"
  proof -
    from one z have idle: "\<not> in_huddle (tick rs score)" by simp
    from cnt z have n: "consecutive_starts (tick rs score) = (if starts_now rs score then 1 else 0)"
      by simp
    show ?thesis
      using n idle by (auto simp: tick_idle[OF idle])
  qed
  have ex: "integral (baseline_score rs) \<longrightarrow>
      starts_now rs score
        = start_condition_exact (py_value (baseline_score rs)) score (tick_trend rs score)"
    by (simp add: starts_now_def start_condition_integral)
  from c d one conf cnt two ex show ?thesis by blast
qed

lemma calibrated_fields:
  "\<not> in_huddle calibrated" "consecutive_starts calibrated = 0" "consecutive_ends calibrated = 0"
  "baseline_score calibrated = PyFloat 10" "score_history calibrated = []"
  "huddle_peak_score calibrated = 0"
  by (simp_all add: calibrated_def enter_loop_def init_detector_def)

lemma starts_now_calibrated: "starts_now calibrated 60"
  by (simp add: starts_now_def start_condition_def threshold_calibrated tick_trend_def
      trend_of_def deque_append_def maxlen_def calibrated_fields)

lemma first_tick_calibrated:
  "tick calibrated 60 = calibrated\<lparr>score_history := [60], consecutive_starts := 1\<rparr>"
  using starts_now_calibrated
  by (simp add: tick_idle[OF calibrated_fields(1)])
    (simp add: calibrated_def enter_loop_def init_detector_def deque_append_def maxlen_def)

lemma starts_now_first_tick: "starts_now (tick calibrated 60) 60"
  unfolding first_tick_calibrated
  by (simp add: starts_now_def start_condition_def threshold_calibrated tick_trend_def
      trend_of_def deque_append_def maxlen_def calibrated_fields)

lemma replay_tick_calibrated:
  "tick (tick calibrated 60) 60
     = calibrated\<lparr>score_history := [60, 60], in_huddle := True, huddle_peak_score := 60\<rparr>"
proof -
  have i1: "\<not> in_huddle (tick calibrated 60)"
    unfolding first_tick_calibrated by (simp add: calibrated_fields)
  show ?thesis
    using starts_now_first_tick unfolding tick_idle[OF i1]
    by (simp add: first_tick_calibrated)
      (simp add: calibrated_def enter_loop_def init_detector_def deque_append_def maxlen_def)
qed

theorem start_confirmed_on_second_tick_witness:
  "\<not> in_huddle calibrated
   \<and> integral (baseline_score calibrated)
   \<and> starts_now calibrated 60
   \<and> start_condition_exact 10 60 (tick_trend calibrated 60)
   \<and> \<not> in_huddle (tick calibrated 60)
   \<and> consecutive_starts (tick calibrated 60) = 1
   \<and> in_huddle (tick (tick calibrated 60) 60)
   \<and> huddle_peak_score (tick (tick calibrated 60) 60) = 60
   \<and> consecutive_starts (tick (tick calibrated 60) 60) = 0
   \<and> consecutive_ends (tick (tick calibrated 60) 60) = 0"
proof -
  have r: "reachable calibrated"
    unfolding calibrated_def by (rule reachable_init)
  note i = calibrated_fields(1) and z = calibrated_fields(2)
  have g: "integral (baseline_score calibrated)"
    by (simp add: calibrated_fields integral_def)
  have r1: "reachable (tick calibrated 60)"
    using r by (rule reachable_tick)
  have i1: "\<not> in_huddle (tick calibrated 60)"
    using start_confirmed_on_second_tick[OF r i, of 60] z by simp
  from start_confirmed_on_second_tick[OF r i, of 60 60]
       start_confirmed_on_second_tick[OF r1 i1, of 60] z
       starts_now_calibrated starts_now_first_tick i g
  show ?thesis by (simp add: calibrated_fields)
qed

lemma in_session_reached: "in_session = tick (tick calibrated 100) 100"
proof -
  note i = calibrated_fields(1)
  have s1: "starts_now calibrated 100"
    by (simp add: starts_now_def start_condition_def threshold_calibrated tick_trend_def
        trend_of_def deque_append_def maxlen_def calibrated_fields)
  have t1: "tick calibrated 100 = calibrated\<lparr>score_history := [100], consecutive_starts := 1\<rparr>"
    using s1 by (simp add: tick_idle[OF i])
      (simp add: calibrated_def enter_loop_def init_detector_def deque_append_def maxlen_def)
  have i1: "\<not> in_huddle (tick calibrated 100)"
    unfolding t1 using i by simp
  have s2: "starts_now (tick calibrated 100) 100"
    unfolding t1
    by (simp add: starts_now_def start_condition_def threshold_calibrated tick_trend_def
        trend_of_def deque_append_def maxlen_def calibrated_fields)
  have "tick (tick calibrated 100) 100 = in_session"
    using s2 unfolding tick_idle[OF i1]
    by (simp add: t1) (simp add: calibrated_def enter_loop_def init_detector_def
        deque_append_def maxlen_def in_session_def)
  then show ?thesis by simp
qed

lemma reachable_in_session: "reachable in_session"
  unfolding in_session_reached
  by (intro reachable_tick) (simp add: calibrated_def reachable_init)

lemma baseline_10_plus_10:
  assumes "py_value b = 10"
  shows "py_value (py_add_int b 10) = 20"
proof -
  have "integral b" using assms by (cases b) (simp_all add: integral_def)
  from integral_add[OF this, of 10] assms show ?thesis by simp
qed

lemma ends_now_below_ratio:
  "huddle_peak_score a = 100 \<Longrightarrow> ends_now a 69"
  by (simp add: ends_now_def end_condition_def ratio_of_100)

lemma ends_now_above_ratio:
  "huddle_peak_score a = 100 \<Longrightarrow> py_value (baseline_score a) = 10 \<Longrightarrow> \<not> ends_now a 71"
  by (simp add: ends_now_def end_condition_def ratio_of_100 baseline_10_plus_10)

lemma after_six_state:
  "after_six = \<lparr> baseline_score = PyFloat 0, in_huddle = True, score_history = six_pushed,
                  huddle_peak_score = 50, consecutive_starts = 0, consecutive_ends = 1 \<rparr>"
  by code_simp

lemma reachable_after_six: "reachable after_six"
  unfolding after_six_def by (intro reachable_foldl reachable_init)

lemma tick_trend_after_six:
  "tick_trend after_six 35 = - (2814749767106561 / 281474976710656)"
  by code_simp

lemma ratio_of_50: "float_mul (float_of_int 50) float_07 = 35"
  by code_simp

text \<open>
  C2. In a reachable state of phase ACTIVE, the tick signals an end iff
  \<open>score < 0.7 \<times> peakScore\<close>, or \<open>score \<le> baseline + 10\<close>, or \<open>trend < -10\<close> and
  \<open>score < 50\<close>, the product, the sum and the trend being those of the program, in
  doubles. The phase becomes IDLE on a tick iff the condition holds on it and held
  on the tick before (the counter is 1); from a counter at 0, two ticks lead to IDLE iff
  both satisfy the condition. On a peak that the scorer can give and an integer baseline
  the condition of the program is the condition in exact arithmetic, but for the trend,
  which stays the trend of the program. In particular, in any ACTIVE state with peak
  100, baseline 10 and the counter at 0, the scores 69, 69 end the session on the second
  tick and not on the first, and the scores 71, 71 do not end it.
\<close>

theorem end_confirmed_on_second_tick:
  assumes "reachable rs" and "in_huddle rs"
  shows "fst (snd (snd (detect_huddle_change rs score))) = ends_now rs score
       \<and> (consecutive_ends rs = 0 \<or> consecutive_ends rs = 1)
       \<and> (\<not> in_huddle (tick rs score) \<longleftrightarrow> ends_now rs score \<and> consecutive_ends rs = 1)
       \<and> consecutive_ends (tick rs score)
            = (if ends_now rs score \<and> consecutive_ends rs = 0 then 1 else 0)
       \<and> (consecutive_ends rs = 0 \<longrightarrow>
            (\<not> in_huddle (tick (tick rs score) score2)
               \<longleftrightarrow> ends_now rs score \<and> ends_now (tick rs score) score2))
       \<and> (in_huddle a \<and> huddle_peak_score a = 100 \<and> py_value (baseline_score a) = 10
            \<and> consecutive_ends a = 0 \<longrightarrow>
            in_huddle (tick a 69) \<and> \<not> in_huddle (tick (tick a 69) 69)
            \<and> in_huddle (tick a 71) \<and> in_huddle (tick (tick a 71) 71))
       \<and> (huddle_peak_score rs \<in> set scorer_range \<and> integral (baseline_score rs) \<longrightarrow>
            ends_now rs score
              = end_condition_exact (huddle_peak_score rs) (py_value (baseline_score rs)) score
                  (tick_trend rs score))"
proof -
  have xa: "huddle_peak_score rs \<in> set scorer_range \<and> integral (baseline_score rs) \<longrightarrow>
      ends_now rs score
        = end_condition_exact (huddle_peak_score rs) (py_value (baseline_score rs)) score
            (tick_trend rs score)"
    by (simp add: ends_now_def end_condition_integral)
  from assms(1) have c: "consecutive_ends rs = 0 \<or> consecutive_ends rs = 1"
    using reachable_counters by blast
  have d: "fst (snd (snd (detect_huddle_change rs score))) = ends_now rs score"
    using assms(2) by (simp add: detect_huddle_change_eq)
  have one: "\<not> in_huddle (tick rs score) \<longleftrightarrow> ends_now rs score \<and> consecutive_ends rs = 1"
    using c assms(2) by (auto simp: tick_active)
  have cnt: "consecutive_ends (tick rs score)
      = (if ends_now rs score \<and> consecutive_ends rs = 0 then 1 else 0)"
    using c assms(2) by (auto simp: tick_active)
  have two: "\<not> in_huddle (tick (tick rs score) score2)
      \<longleftrightarrow> ends_now rs score \<and> ends_now (tick rs score) score2"
    if z: "consecutive_ends rs = 0"
  proof -
    from one z have active: "in_huddle (tick rs score)" by simp
    from cnt z have n: "consecutive_ends (tick rs score) = (if ends_now rs score then 1 else 0)"
      by simp
    show ?thesis
      using n active by (auto simp: tick_active[OF active])
  qed
  have ex: "in_huddle (tick a 69) \<and> \<not> in_huddle (tick (tick a 69) 69)
      \<and> in_huddle (tick a 71) \<and> in_huddle (tick (tick a 71) 71)"
    if h: "in_huddle a" "huddle_peak_score a = 100" "py_value (baseline_score a) = 10"
      "consecutive_ends a = 0"
  proof -
    have a69: "in_huddle (tick a 69)" "huddle_peak_score (tick a 69) = 100"
      "consecutive_ends (tick a 69) = 1"
      using h ends_now_below_ratio[of a] by (simp_all add: tick_active)
    have b69: "\<not> in_huddle (tick (tick a 69) 69)"
      using a69 ends_now_below_ratio[of "tick a 69"] by (simp add: tick_active)
    have a71: "in_huddle (tick a 71)" "huddle_peak_score (tick a 71) = 100"
      "py_value (baseline_score (tick a 71)) = 10"
      using h ends_now_above_ratio[of a] by (simp_all add: tick_active)
    have b71: "in_huddle (tick (tick a 71) 71)"
      using a71 ends_now_above_ratio[of "tick a 71"] by (simp add: tick_active)
    from a69 b69 a71 b71 show ?thesis by simp
  qed
  from c d one cnt two ex xa show ?thesis by blast
qed

theorem end_confirmed_on_second_tick_witness:
  "in_huddle in_session
   \<and> huddle_peak_score in_session = 100 \<and> baseline_score in_session = PyFloat 10
   \<and> huddle_peak_score in_session \<in> set scorer_range
   \<and> integral (baseline_score in_session)
   \<and> ends_now in_session 69
   \<and> end_condition_exact 100 10 69 (tick_trend in_session 69)
   \<and> in_huddle (tick in_session 69)
   \<and> consecutive_ends (tick in_session 69) = 1
   \<and> \<not> in_huddle (tick (tick in_session 69) 69)
   \<and> in_huddle (tick in_session 71)
   \<and> in_huddle (tick (tick in_session 71) 71)
   \<and> in_huddle after_six \<and> consecutive_ends after_six = 1
   \<and> huddle_peak_score after_six = 50 \<and> baseline_score after_six = PyFloat 0
   \<and> tick_trend after_six 35 < - 10
   \<and> ends_now after_six 35
   \<and> \<not> in_huddle (tick after_six 35)"
proof -
  have h: "in_huddle in_session" "huddle_peak_score in_session = 100"
    "baseline_score in_session = PyFloat 10" "consecutive_ends in_session = 0"
    by (simp_all add: in_session_def)
  have e: "ends_now in_session 69"
    using h by (simp add: ends_now_below_ratio)
  have g: "huddle_peak_score in_session \<in> set scorer_range"
    "integral (baseline_score in_session)"
    by (simp_all add: h scorer_range_def integral_def)
  have s: "in_huddle after_six" "consecutive_ends after_six = 1"
    "huddle_peak_score after_six = 50" "baseline_score after_six = PyFloat 0"
    by (simp_all add: after_six_state)
  have t: "tick_trend after_six 35 < - 10"
    unfolding tick_trend_after_six by simp
  have n: "ends_now after_six 35"
    using t by (simp add: ends_now_def end_condition_def s)
  from end_confirmed_on_second_tick[OF reachable_in_session h(1), of 69 69 in_session]
       end_confirmed_on_second_tick[OF reachable_after_six s(1), of 35]
       h e g s t n
  show ?thesis by simp
qed

text \<open>
  C3. Whenever a tick with score \<open>s\<close> takes the phase from ACTIVE to IDLE, the baseline
  after it is exactly \<open>s\<close>, the integer, and the peak is 0.
\<close>

theorem baseline_reanchored_on_end:
  assumes "in_huddle rs" and "\<not> in_huddle (tick rs s)"
  shows "baseline_score (tick rs s) = PyInt s \<and> huddle_peak_score (tick rs s) = 0"
  using assms by (auto simp: tick_active split: if_splits)

theorem baseline_reanchored_on_end_witness:
  "in_huddle (tick in_session 69)
   \<and> \<not> in_huddle (tick (tick in_session 69) 69)
   \<and> baseline_score (tick (tick in_session 69) 69) = PyInt 69
   \<and> py_value (baseline_score (tick (tick in_session 69) 69)) = 69
   \<and> huddle_peak_score (tick (tick in_session 69) 69) = 0"
proof -
  have h: "in_huddle in_session" "huddle_peak_score in_session = 100"
    "baseline_score in_session = PyFloat 10" "consecutive_ends in_session = 0"
    by (simp_all add: in_session_def)
  have a: "in_huddle (tick in_session 69)" "huddle_peak_score (tick in_session 69) = 100"
    "consecutive_ends (tick in_session 69) = 1"
    using h ends_now_below_ratio[of in_session] by (simp_all add: tick_active)
  have b: "\<not> in_huddle (tick (tick in_session 69) 69)"
    using a ends_now_below_ratio[of "tick in_session 69"] by (simp add: tick_active)
  from baseline_reanchored_on_end[OF a(1) b] a(1) b show ?thesis by simp
qed


lemma handle_transitions_state:
  "fst (handle_transitions rs now score reasons ss se) = fst (handle_transitions rs [] score [] ss se)"
  by (simp add: handle_transitions_def Let_def)

lemma state_machine_tick_state:
  "fst (state_machine_tick rs now score reasons) = tick rs score"
proof -
  obtain rs1 ss se tr where d: "detect_huddle_change rs score = (rs1, ss, se, tr)"
    by (cases "detect_huddle_change rs score")
  obtain rs2 out where h: "handle_transitions rs1 now score reasons ss se = (rs2, out)"
    by (cases "handle_transitions rs1 now score reasons ss se")
  obtain rs3 out3 where h3: "handle_transitions rs1 [] score [] ss se = (rs3, out3)"
    by (cases "handle_transitions rs1 [] score [] ss se")
  have "rs2 = rs3"
    using handle_transitions_state[of rs1 now score reasons ss se] h h3 by simp
  then show ?thesis
    by (simp add: tick_def state_machine_tick_def d h h3)
qed

lemma loop_iteration_state:
  assumes "calculate_score (get_audio_state (ti_shell inp)) = Inr (score, reasons)"
  shows "fst (loop_iteration (rs, w) inp) = tick rs score"
proof -
  obtain rs2 tr out where t: "state_machine_tick rs (ti_now inp) score reasons = (rs2, tr, out)"
    by (cases "state_machine_tick rs (ti_now inp) score reasons")
  have r: "rs2 = tick rs score"
    using state_machine_tick_state[of rs "ti_now inp" score reasons] t by simp
  show ?thesis
    by (simp add: loop_iteration_def assms t r Let_def split: sum.splits)
qed

lemma tick_one_counter:
  "consecutive_starts (tick rs score) = 0 \<or> consecutive_ends (tick rs score) = 0"
proof (cases "in_huddle rs")
  case True
  then show ?thesis by (simp add: tick_active)
next
  case False
  then show ?thesis by (simp add: tick_idle)
qed

text \<open>
  C10. After the transition handling of any tick, from any state, at most one of the two
  counters is not 0; this holds after every iteration of the loop. The branch of a start
  signal sets the end counter to 0, the branch of an end signal sets the start counter
  to 0, and the remaining branch sets both to 0.
\<close>

theorem at_most_one_counter_nonzero:
  "(consecutive_starts (tick rs score) = 0 \<or> consecutive_ends (tick rs score) = 0)
   \<and> (consecutive_starts (fst (loop_iteration (rs, w) inp)) = 0
       \<or> consecutive_ends (fst (loop_iteration (rs, w) inp)) = 0)
   \<and> (should_start \<longrightarrow>
        consecutive_ends (fst (handle_transitions rs now score reasons should_start should_end)) = 0)
   \<and> (\<not> should_start \<and> should_end \<longrightarrow>
        consecutive_starts (fst (handle_transitions rs now score reasons should_start should_end)) = 0)
   \<and> (\<not> should_start \<and> \<not> should_end \<longrightarrow>
        consecutive_starts (fst (handle_transitions rs now score reasons should_start should_end)) = 0
        \<and> consecutive_ends (fst (handle_transitions rs now score reasons should_start should_end)) = 0)"
proof -
  obtain sc rsn where c: "calculate_score (get_audio_state (ti_shell inp)) = Inr (sc, rsn)"
    using calculate_score_returns by blast
  have l: "consecutive_starts (fst (loop_iteration (rs, w) inp)) = 0
       \<or> consecutive_ends (fst (loop_iteration (rs, w) inp)) = 0"
    unfolding loop_iteration_state[OF c] by (rule tick_one_counter)
  have h: "(should_start \<longrightarrow>
        consecutive_ends (fst (handle_transitions rs now score reasons should_start should_end)) = 0)
   \<and> (\<not> should_start \<and> should_end \<longrightarrow>
        consecutive_starts (fst (handle_transitions rs now score reasons should_start should_end)) = 0)
   \<and> (\<not> should_start \<and> \<not> should_end \<longrightarrow>
        consecutive_starts (fst (handle_transitions rs now score reasons should_start should_end)) = 0
        \<and> consecutive_ends (fst (handle_transitions rs now score reasons should_start should_end)) = 0)"
    by (simp add: handle_transitions_def Let_def)
  from tick_one_counter[of rs score] l h show ?thesis by blast
qed

theorem at_most_one_counter_nonzero_witness:
  "consecutive_starts (fst (handle_transitions calibrated [] 60 [] True False)) = 1
   \<and> consecutive_ends (fst (handle_transitions calibrated [] 60 [] True False)) = 0
   \<and> consecutive_starts (fst (handle_transitions in_session [] 69 [] False True)) = 0
   \<and> consecutive_ends (fst (handle_transitions in_session [] 69 [] False True)) = 1
   \<and> consecutive_starts (fst (handle_transitions calibrated [] 20 [] False False)) = 0
   \<and> consecutive_ends (fst (handle_transitions calibrated [] 20 [] False False)) = 0"
proof -
  have a: "consecutive_starts (fst (handle_transitions calibrated [] 60 [] True False)) = 1"
    by (simp add: handle_transitions_def Let_def calibrated_def enter_loop_def)
  have b: "consecutive_ends (fst (handle_transitions in_session [] 69 [] False True)) = 1"
    by (simp add: handle_transitions_def Let_def in_session_def)
  from at_most_one_counter_nonzero[of calibrated 60 silent_world example_input True "[]" "[]" False]
       at_most_one_counter_nonzero[of in_session 69 silent_world example_input False "[]" "[]" True]
       at_most_one_counter_nonzero[of calibrated 20 silent_world example_input False "[]" "[]" False]
       a b
  show ?thesis by simp
qed

lemma tick_peak_covers_score:
  "in_huddle (tick rs score) \<Longrightarrow> score \<le> huddle_peak_score (tick rs score)"
  by (cases "in_huddle rs") (auto simp: tick_active tick_idle split: if_splits)

text \<open>
  C9, as the code has it. A replay of the same score leaves the peak as it was whenever
  the replay does not itself change the phase: the peak update is a maximum. The counters
  have no such protection. In phase IDLE with the start counter at 0, the first
  application never changes the phase and counts the score when the start condition
  holds on it; the replay confirms the transition to ACTIVE iff the start condition holds
  on the first application and again on the replay, where the trend is computed anew on
  the history that holds the score twice. Then the score has been counted twice and the
  peak has changed to it. When the condition holds on the first application and fails on
  the replay, the replay sets the counter back to 0.
\<close>

theorem replay_keeps_peak_without_transition:
  "(in_huddle (tick (tick rs score) score) = in_huddle (tick rs score) \<longrightarrow>
      huddle_peak_score (tick (tick rs score) score) = huddle_peak_score (tick rs score))
   \<and> (\<not> in_huddle rs \<and> consecutive_starts rs = 0 \<longrightarrow>
      \<not> in_huddle (tick rs score)
      \<and> consecutive_starts (tick rs score) = (if starts_now rs score then 1 else 0)
      \<and> (in_huddle (tick (tick rs score) score)
           \<longleftrightarrow> starts_now rs score \<and> starts_now (tick rs score) score)
      \<and> (in_huddle (tick (tick rs score) score) \<longrightarrow>
           huddle_peak_score (tick (tick rs score) score) = score)
      \<and> (\<not> in_huddle (tick (tick rs score) score) \<longrightarrow>
           consecutive_starts (tick (tick rs score) score)
             = (if starts_now (tick rs score) score then 1 else 0)))"
proof -
  let ?r = "tick rs score"
  have p: "huddle_peak_score (tick ?r score) = huddle_peak_score ?r"
    if same: "in_huddle (tick ?r score) = in_huddle ?r"
  proof (cases "in_huddle ?r")
    case True
    then have "score \<le> huddle_peak_score ?r" by (rule tick_peak_covers_score)
    with True same show ?thesis
      by (auto simp: tick_active[OF True] split: if_splits)
  next
    case False
    with same show ?thesis
      by (auto simp: tick_idle[OF False] split: if_splits)
  qed
  have q: "\<not> in_huddle ?r
      \<and> consecutive_starts ?r = (if starts_now rs score then 1 else 0)
      \<and> (in_huddle (tick ?r score) \<longleftrightarrow> starts_now rs score \<and> starts_now ?r score)
      \<and> (in_huddle (tick ?r score) \<longrightarrow> huddle_peak_score (tick ?r score) = score)
      \<and> (\<not> in_huddle (tick ?r score) \<longrightarrow>
           consecutive_starts (tick ?r score) = (if starts_now ?r score then 1 else 0))"
    if h: "\<not> in_huddle rs" "consecutive_starts rs = 0"
  proof -
    have a: "\<not> in_huddle ?r" "consecutive_starts ?r = (if starts_now rs score then 1 else 0)"
      using h by (simp_all add: tick_idle)
    have b: "in_huddle (tick ?r score) \<longleftrightarrow> starts_now rs score \<and> starts_now ?r score"
      using a by (auto simp: tick_idle[OF a(1)])
    have c: "in_huddle (tick ?r score) \<longrightarrow> huddle_peak_score (tick ?r score) = score"
      using a by (auto simp: tick_idle[OF a(1)] split: if_splits)
    have d: "\<not> in_huddle (tick ?r score) \<longrightarrow>
        consecutive_starts (tick ?r score) = (if starts_now ?r score then 1 else 0)"
      using a by (auto simp: tick_idle[OF a(1)] split: if_splits)
    from a b c d show ?thesis by simp
  qed
  from p q show ?thesis by blast
qed

text \<open>
  C9 as stated fails: with baseline 10, one tick of score 60 leaves the phase IDLE, the
  peak 0 and the start counter 1; the replay of that tick counts again, confirms the
  transition to ACTIVE and changes the peak to 60.
\<close>

theorem replay_double_counts:
  "\<not> in_huddle (tick calibrated 60)
   \<and> huddle_peak_score (tick calibrated 60) = 0
   \<and> consecutive_starts (tick calibrated 60) = 1
   \<and> in_huddle (tick (tick calibrated 60) 60)
   \<and> huddle_peak_score (tick (tick calibrated 60) 60) = 60
   \<and> consecutive_starts (tick (tick calibrated 60) 60) = 0"
proof -
  have a: "\<not> in_huddle (tick calibrated 60) \<and> huddle_peak_score (tick calibrated 60) = 0
      \<and> consecutive_starts (tick calibrated 60) = 1"
    unfolding first_tick_calibrated
    by (simp add: calibrated_def enter_loop_def init_detector_def)
  have b: "in_huddle (tick (tick calibrated 60) 60)
      \<and> huddle_peak_score (tick (tick calibrated 60) 60) = 60
      \<and> consecutive_starts (tick (tick calibrated 60) 60) = 0"
    unfolding replay_tick_calibrated
    by (simp add: calibrated_def enter_loop_def init_detector_def)
  from a b show ?thesis by simp
qed

lemma in_session_120:
  "in_huddle (tick in_session 120)" "in_huddle (tick (tick in_session 120) 120)"
  "huddle_peak_score (tick in_session 120) = 120"
  by code_simp+

lemma spiked_60:
  "\<not> in_huddle spiked" "consecutive_starts spiked = 0"
  "starts_now spiked 60" "\<not> starts_now (tick spiked 60) 60"
  "tick_trend spiked 60 = 70" "tick_trend (tick spiked 60) 60 = - 10"
  by code_simp+

theorem replay_keeps_peak_without_transition_witness:
  "in_huddle (tick in_session 120)
   \<and> in_huddle (tick (tick in_session 120) 120)
   \<and> huddle_peak_score (tick in_session 120) = 120
   \<and> huddle_peak_score (tick (tick in_session 120) 120) = 120
   \<and> \<not> in_huddle calibrated \<and> consecutive_starts calibrated = 0
   \<and> starts_now calibrated 60 \<and> starts_now (tick calibrated 60) 60
   \<and> consecutive_starts (tick calibrated 60) = 1
   \<and> in_huddle (tick (tick calibrated 60) 60)
   \<and> huddle_peak_score (tick (tick calibrated 60) 60) = 60
   \<and> \<not> in_huddle spiked \<and> consecutive_starts spiked = 0
   \<and> starts_now spiked 60 \<and> \<not> starts_now (tick spiked 60) 60
   \<and> consecutive_starts (tick spiked 60) = 1
   \<and> \<not> in_huddle (tick (tick spiked 60) 60)
   \<and> consecutive_starts (tick (tick spiked 60) 60) = 0"
proof -
  from replay_keeps_peak_without_transition[of in_session 120]
       replay_keeps_peak_without_transition[of calibrated 60]
       replay_keeps_peak_without_transition[of spiked 60]
       in_session_120 calibrated_fields(1,2) starts_now_calibrated starts_now_first_tick
       spiked_60
  show ?thesis by simp
qed

text \<open>Every state that \<^verbatim>\<open>run\<close> reaches is a reachable state of the state machine.\<close>

lemma run_loop_reachable:
  "reachable rs \<Longrightarrow> reachable (fst (run_loop (rs, w) inps))"
proof (induction inps arbitrary: rs w)
  case Nil
  then show ?case by (simp add: run_loop_def)
next
  case (Cons inp inps)
  obtain sc rsn where c: "calculate_score (get_audio_state (ti_shell inp)) = Inr (sc, rsn)"
    using calculate_score_returns by blast
  obtain rs1 w1 where l: "loop_iteration (rs, w) inp = (rs1, w1)"
    by (cases "loop_iteration (rs, w) inp")
  have "rs1 = tick rs sc"
    using loop_iteration_state[OF c, of rs w] l by simp
  with Cons.prems have "reachable rs1" by (simp add: reachable_tick)
  from Cons.IH[OF this, of w1] show ?case
    by (simp add: run_loop_def l)
qed

lemma run_reachable:
  assumes "run w src inps = Inr (rs, w')"
  shows "reachable rs"
proof -
  obtain self w1 where c: "calibrate init_detector w src = Inr (self, w1)"
    and r: "run_loop (enter_loop self, w1) inps = (rs, w')"
    using assms by (auto simp: run_def then_do_def split: sum.splits)
  from c obtain b where "self = init_detector\<lparr>baseline_score := b\<rparr>"
    by (auto simp: calibrate_def then_do_def Let_def split: sum.splits if_splits)
  then have "reachable (enter_loop self)" by (simp add: reachable_init)
  from run_loop_reachable[OF this, of w1 inps] r show ?thesis by simp
qed

end
